theory Spec2Isabelle
  imports Complex_Main "HOL-Library.AList"
begin

section \<open>Data model\<close>

text \<open>
  The checks of \<^verbatim>\<open>ConsistencyChecks\<close> read a pandas DataFrame. A cell is a missing
  value (None, NaN, NaT), a float64 number \<open>Num x\<close> (the float nearest to \<open>x\<close>: \<open>x\<close> itself
  when \<open>x\<close> is a float64 value), a string, a timestamp or an int64 number \<open>I64 i\<close>. A
  column of whole numbers without missing values is an int64 column; numbers with
  missing values or fractions make a float64 column.
\<close>

datatype cell = Null | Num real | Str string | Ts int | I64 int

record table =
  nrows :: nat
  tcols :: "(string \<times> cell list) list"

definition wf_table :: "table \<Rightarrow> bool" where
  "wf_table df =
     (distinct (map fst (tcols df)) \<and> list_all (\<lambda>c. length (snd c) = nrows df) (tcols df))"

datatype type_error =
    MissingArguments "string list"
  | UnexpectedKeyword string
  | MultipleValues string
  | TooManyPositional
  | BadOperand

datatype error = ValueError string | KeyError string | TypeError type_error | OverflowError

text \<open>Sequencing of fallible steps: the first exception raised is the result.\<close>

definition sbind :: "error + 'a \<Rightarrow> ('a \<Rightarrow> error + 'b) \<Rightarrow> error + 'b" where
  "sbind m f = (case m of Inl e \<Rightarrow> Inl e | Inr x \<Rightarrow> f x)"

fun collect :: "(error + 'a) list \<Rightarrow> error + 'a list" where
  "collect [] = Inr []"
| "collect (r # rs) =
     (case r of Inl e \<Rightarrow> Inl e
      | Inr x \<Rightarrow> (case collect rs of Inl e \<Rightarrow> Inl e | Inr xs \<Rightarrow> Inr (x # xs)))"

section \<open>64-bit floats\<close>

text \<open>
  Python's \<^verbatim>\<open>float\<close> and numpy's \<^verbatim>\<open>float64\<close> are IEEE 754 binary64 numbers: NaN, the
  two infinities, and the finite numbers \<open>m * 2 ^ e\<close> with \<open>\<bar>m\<bar> < 2 ^ 53\<close> and
  \<open>- 1074 \<le> e \<le> 971\<close>. \<open>Fin x\<close> is the finite float of value \<open>x\<close>. The sign of zero is
  not modelled: it changes no comparison.
\<close>

datatype pyfloat = NaN | NInf | Fin real | PInf

text \<open>
  Rounding to the nearest float, ties to the even significand: \<open>expo x\<close> is the exponent
  of the last place of the floats around \<open>x\<close> (never below that of the subnormal
  numbers), \<open>rne\<close> rounds to the nearest integer, a tie to the even one.
\<close>

definition expo :: "real \<Rightarrow> int" where
  "expo x = max (\<lfloor>log 2 \<bar>x\<bar>\<rfloor> - 52) (- 1074)"

definition rne :: "real \<Rightarrow> int" where
  "rne q =
     (let n = \<lfloor>q\<rfloor>; d = q - of_int n
      in if d < 1 / 2 then n else if 1 / 2 < d then n + 1 else if even n then n else n + 1)"

definition rnd :: "real \<Rightarrow> real" where
  "rnd x = (if x = 0 then 0 else of_int (rne (x / 2 powi expo x)) * 2 powi expo x)"

text \<open>The float an exact result is rounded to; beyond the largest float it is infinite.\<close>

definition r64 :: "real \<Rightarrow> pyfloat" where
  "r64 x =
     (let y = rnd x
      in if 2 ^ 1024 \<le> y then PInf else if y \<le> - (2 ^ 1024) then NInf else Fin y)"

fun fneg :: "pyfloat \<Rightarrow> pyfloat" where
  "fneg (Fin a) = Fin (- a)"
| "fneg PInf = NInf"
| "fneg NInf = PInf"
| "fneg NaN = NaN"

fun fadd :: "pyfloat \<Rightarrow> pyfloat \<Rightarrow> pyfloat" where
  "fadd (Fin a) (Fin b) = r64 (a + b)"
| "fadd NaN b = NaN"
| "fadd a NaN = NaN"
| "fadd PInf NInf = NaN"
| "fadd NInf PInf = NaN"
| "fadd PInf b = PInf"
| "fadd NInf b = NInf"
| "fadd a b = b"

definition fsub :: "pyfloat \<Rightarrow> pyfloat \<Rightarrow> pyfloat" where
  "fsub a b = fadd a (fneg b)"

fun fmul :: "pyfloat \<Rightarrow> pyfloat \<Rightarrow> pyfloat" where
  "fmul (Fin a) (Fin b) = r64 (a * b)"
| "fmul NaN b = NaN"
| "fmul a NaN = NaN"
| "fmul (Fin a) b = (if a = 0 then NaN else if 0 < a then b else fneg b)"
| "fmul a (Fin b) = (if b = 0 then NaN else if 0 < b then a else fneg a)"
| "fmul a b = (if a = b then PInf else NInf)"

text \<open>Comparison: NaN compares False with everything, itself included.\<close>

fun flt :: "pyfloat \<Rightarrow> pyfloat \<Rightarrow> bool" where
  "flt NaN b = False"
| "flt a NaN = False"
| "flt (Fin a) (Fin b) = (a < b)"
| "flt NInf b = (b \<noteq> NInf)"
| "flt a PInf = (a \<noteq> PInf)"
| "flt a b = False"

definition fle :: "pyfloat \<Rightarrow> pyfloat \<Rightarrow> bool" where
  "fle a b = (flt a b \<or> (a = b \<and> a \<noteq> NaN))"

section \<open>Python numbers\<close>

text \<open>
  A number passed to a check is a Python \<^verbatim>\<open>int\<close> (unbounded) or a \<^verbatim>\<open>float\<close>. Arithmetic on
  two ints is exact; as soon as a float takes part the int is converted
  (\<^verbatim>\<open>OverflowError\<close> when it is too large for a float) and the result is the rounded float.
\<close>

datatype pynum = PInt int | PFloat pyfloat

definition to_float :: "pynum \<Rightarrow> error + pyfloat" where
  "to_float n =
     (case n of
        PInt i \<Rightarrow> (case r64 (of_int i) of Fin y \<Rightarrow> Inr (Fin y) | _ \<Rightarrow> Inl OverflowError)
      | PFloat f \<Rightarrow> Inr f)"

definition py_arith ::
  "(int \<Rightarrow> int \<Rightarrow> int) \<Rightarrow> (pyfloat \<Rightarrow> pyfloat \<Rightarrow> pyfloat) \<Rightarrow> pynum \<Rightarrow> pynum \<Rightarrow> error + pynum" where
  "py_arith iop fop a b =
     (case (a, b) of
        (PInt i, PInt j) \<Rightarrow> Inr (PInt (iop i j))
      | _ \<Rightarrow> sbind (to_float a) (\<lambda>x. sbind (to_float b) (\<lambda>y. Inr (PFloat (fop x y)))))"

definition py_add :: "pynum \<Rightarrow> pynum \<Rightarrow> error + pynum" where
  "py_add = py_arith (\<lambda>i j. i + j) fadd"

definition py_sub :: "pynum \<Rightarrow> pynum \<Rightarrow> error + pynum" where
  "py_sub = py_arith (\<lambda>i j. i - j) fsub"

definition py_mul :: "pynum \<Rightarrow> pynum \<Rightarrow> error + pynum" where
  "py_mul = py_arith (\<lambda>i j. i * j) fmul"

section \<open>Table and series primitives\<close>

text \<open>\<^verbatim>\<open>df[col]\<close>: the column, or KeyError when the table has no such column.\<close>

definition getitem :: "table \<Rightarrow> string \<Rightarrow> error + cell list" where
  "getitem df col =
     (case map_of (tcols df) col of None \<Rightarrow> Inl (KeyError col) | Some vs \<Rightarrow> Inr vs)"

definition df_columns :: "table \<Rightarrow> string list" where
  "df_columns df = map fst (tcols df)"

definition len_df :: "table \<Rightarrow> nat" where
  "len_df df = nrows df"

text \<open>
  \<^verbatim>\<open>Series.duplicated()\<close> with its default \<^verbatim>\<open>keep='first'\<close>: an entry is marked
  when an equal entry stands before it; missing values count as equal to each other.
\<close>

fun duplicated_from :: "'a list \<Rightarrow> 'a list \<Rightarrow> bool list" where
  "duplicated_from seen [] = []"
| "duplicated_from seen (x # xs) = (x \<in> set seen) # duplicated_from (x # seen) xs"

definition duplicated :: "'a list \<Rightarrow> bool list" where
  "duplicated xs = duplicated_from [] xs"

text \<open>\<^verbatim>\<open>.sum()\<close> of a boolean series: the number of True entries.\<close>

definition sum_bool :: "bool list \<Rightarrow> nat" where
  "sum_bool bs = length (filter (\<lambda>b. b) bs)"

definition isnull :: "cell \<Rightarrow> bool" where
  "isnull c = (c = Null)"

text \<open>
  Comparison of a cell with a number, as numpy does it: an int64 cell against an int is
  compared exactly; in every other case both sides are float64, an int64 cell and an
  int being converted first. A missing value compares False on both sides, a string or
  a timestamp against a number raises TypeError.
\<close>

fun cell_lt :: "cell \<Rightarrow> pynum \<Rightarrow> error + bool" where
  "cell_lt (I64 i) (PInt j) = Inr (i < j)"
| "cell_lt (I64 i) (PFloat f) = Inr (flt (r64 (of_int i)) f)"
| "cell_lt (Num x) b = sbind (to_float b) (\<lambda>f. Inr (flt (r64 x) f))"
| "cell_lt Null b = sbind (to_float b) (\<lambda>f. Inr False)"
| "cell_lt (Str s) b = Inl (TypeError BadOperand)"
| "cell_lt (Ts t) b = Inl (TypeError BadOperand)"

fun cell_gt :: "cell \<Rightarrow> pynum \<Rightarrow> error + bool" where
  "cell_gt (I64 i) (PInt j) = Inr (j < i)"
| "cell_gt (I64 i) (PFloat f) = Inr (flt f (r64 (of_int i)))"
| "cell_gt (Num x) b = sbind (to_float b) (\<lambda>f. Inr (flt f (r64 x)))"
| "cell_gt Null b = sbind (to_float b) (\<lambda>f. Inr False)"
| "cell_gt (Str s) b = Inl (TypeError BadOperand)"
| "cell_gt (Ts t) b = Inl (TypeError BadOperand)"

definition series_lt :: "cell list \<Rightarrow> pynum \<Rightarrow> error + bool list" where
  "series_lt vs v = collect (map (\<lambda>c. cell_lt c v) vs)"

definition series_gt :: "cell list \<Rightarrow> pynum \<Rightarrow> error + bool list" where
  "series_gt vs v = collect (map (\<lambda>c. cell_gt c v) vs)"

definition series_or :: "bool list \<Rightarrow> bool list \<Rightarrow> bool list" where
  "series_or as bs = map (\<lambda>p. fst p \<or> snd p) (zip as bs)"

text \<open>
  \<^verbatim>\<open>xs[start:]\<close>: a negative start counts from the end and is clipped at the
  beginning, a start beyond the end gives the empty sequence.
\<close>

definition slice_from :: "int \<Rightarrow> 'a list \<Rightarrow> 'a list" where
  "slice_from start xs =
     (let n = int (length xs);
          s = (if start < 0 then max (start + n) 0 else min start n)
      in drop (nat s) xs)"

text \<open>
  The reductions of numpy and pandas, \<^verbatim>\<open>np.mean\<close>, \<^verbatim>\<open>np.std\<close> and \<^verbatim>\<open>Series.var()\<close>, are not
  code of this program, and the float they return depends on the library at hand (the
  order in which it adds, the accelerators it was installed with): they are parameters
  of the checks. Each returns a float64 or raises.
\<close>

record nplib =
  np_mean :: "pynum list \<Rightarrow> error + pyfloat"
  np_std :: "pynum list \<Rightarrow> error + pyfloat"
  series_var :: "cell list \<Rightarrow> error + pyfloat"

section \<open>Rendering of values in messages\<close>

text \<open>The decimal text of a count and of an int, as \<^verbatim>\<open>str\<close> gives it.\<close>

definition digit_char :: "nat \<Rightarrow> char" where
  "digit_char d = ''0123456789'' ! d"

fun str_nat :: "nat \<Rightarrow> string" where
  "str_nat n = (if n < 10 then [digit_char n] else str_nat (n div 10) @ [digit_char (n mod 10)])"

definition str_int :: "int \<Rightarrow> string" where
  "str_int i = (if i < 0 then CHR ''-'' # str_nat (nat (- i)) else str_nat (nat i))"

text \<open>
  The text Python gives a float, numpy a float64 result, and Python a set of strings
  and a dict is fixed by the interpreter and by numpy, not by this program (the order
  of a set's elements is not even fixed between runs): the renderers are parameters of
  the rules.
\<close>

record pyfmt =
  str_float :: "pyfloat \<Rightarrow> string"
  str_float64 :: "pyfloat \<Rightarrow> string"
  str_set :: "string set \<Rightarrow> string"
  str_dict :: "(string \<times> nat) list \<Rightarrow> string"

text \<open>A number in an f-string: an int in decimal, a float as the interpreter writes it.\<close>

definition str_pynum :: "pyfmt \<Rightarrow> pynum \<Rightarrow> string" where
  "str_pynum fmt n = (case n of PInt i \<Rightarrow> str_int i | PFloat f \<Rightarrow> str_float fmt f)"

section \<open>The nine checks\<close>

subsection \<open>Unique identifiers\<close>

definition metrics_unique_identifiers :: "table \<Rightarrow> string \<Rightarrow> error + nat" where
  "metrics_unique_identifiers df id_col =
     (case getitem df id_col of
        Inl e \<Rightarrow> Inl e
      | Inr vs \<Rightarrow> Inr (sum_bool (duplicated vs)))"

definition rules_unique_identifiers :: "table \<Rightarrow> string \<Rightarrow> error + bool \<times> string" where
  "rules_unique_identifiers df id_col =
     (case metrics_unique_identifiers df id_col of
        Inl e \<Rightarrow> Inl e
      | Inr duplicates \<Rightarrow>
          Inr (duplicates = 0, str_nat duplicates @ '' duplicate identifiers found.''))"

subsection \<open>Schema consistency\<close>

definition metrics_schema_consistency :: "table \<Rightarrow> string list \<Rightarrow> string set" where
  "metrics_schema_consistency df expected_columns = set expected_columns - set (df_columns df)"

definition rules_schema_consistency :: "pyfmt \<Rightarrow> table \<Rightarrow> string list \<Rightarrow> bool \<times> string" where
  "rules_schema_consistency fmt df expected_columns =
     (let missing_cols = metrics_schema_consistency df expected_columns
      in (card missing_cols = 0, ''Missing columns: '' @ str_set fmt missing_cols))"

subsection \<open>Non-null\<close>

text \<open>
  The dict comprehension over \<^verbatim>\<open>columns\<close>: entries in the order of first
  occurrence, a repeated name overwriting its entry; the first absent column raises.
\<close>

fun null_counts_from :: "table \<Rightarrow> string list \<Rightarrow> (string \<times> nat) list \<Rightarrow> error + (string \<times> nat) list" where
  "null_counts_from df [] acc = Inr acc"
| "null_counts_from df (col # cols) acc =
     (case getitem df col of
        Inl e \<Rightarrow> Inl e
      | Inr vs \<Rightarrow> null_counts_from df cols (AList.update col (sum_bool (map isnull vs)) acc))"

definition metrics_non_null :: "table \<Rightarrow> string list \<Rightarrow> error + (string \<times> nat) list" where
  "metrics_non_null df cols = null_counts_from df cols []"

definition rules_non_null :: "pyfmt \<Rightarrow> table \<Rightarrow> string list \<Rightarrow> error + bool \<times> string" where
  "rules_non_null fmt df cols =
     (case metrics_non_null df cols of
        Inl e \<Rightarrow> Inl e
      | Inr null_counts \<Rightarrow>
          (let invalid_cols = filter (\<lambda>kv. snd kv > 0) null_counts
           in Inr (length invalid_cols = 0,
                   ''Null values found in columns: '' @ str_dict fmt invalid_cols)))"

subsection \<open>Threshold limits\<close>

definition outside_count :: "cell list \<Rightarrow> pynum \<Rightarrow> pynum \<Rightarrow> error + nat" where
  "outside_count vs lo hi =
     (case series_lt vs lo of
        Inl e \<Rightarrow> Inl e
      | Inr too_low \<Rightarrow>
          (case series_gt vs hi of
             Inl e \<Rightarrow> Inl e
           | Inr too_high \<Rightarrow> Inr (sum_bool (series_or too_low too_high))))"

definition metrics_threshold :: "table \<Rightarrow> string \<Rightarrow> pynum \<Rightarrow> pynum \<Rightarrow> error + nat" where
  "metrics_threshold df column min_val max_val =
     (case getitem df column of
        Inl e \<Rightarrow> Inl e
      | Inr vs \<Rightarrow> outside_count vs min_val max_val)"

definition rules_threshold :: "pyfmt \<Rightarrow> table \<Rightarrow> string \<Rightarrow> pynum \<Rightarrow> pynum \<Rightarrow> error + bool \<times> string" where
  "rules_threshold fmt df column min_val max_val =
     (case metrics_threshold df column min_val max_val of
        Inl e \<Rightarrow> Inl e
      | Inr outliers \<Rightarrow>
          Inr (outliers = 0,
               str_nat outliers @ '' values are outside the range ['' @ str_pynum fmt min_val
                 @ '', '' @ str_pynum fmt max_val @ ''].''))"

subsection \<open>Dynamic thresholds\<close>

text \<open>
  The two bounds are Python arithmetic on the arguments; the lower bound is computed
  and compared before the upper one is computed.
\<close>

definition metrics_dynamic_threshold :: "table \<Rightarrow> string \<Rightarrow> pynum \<Rightarrow> pynum \<Rightarrow> error + nat" where
  "metrics_dynamic_threshold df column reference_value tolerance =
     sbind (getitem df column) (\<lambda>vs.
     sbind (py_sub (PInt 1) tolerance) (\<lambda>a.
     sbind (py_mul reference_value a) (\<lambda>lo.
     sbind (series_lt vs lo) (\<lambda>too_low.
     sbind (py_add (PInt 1) tolerance) (\<lambda>b.
     sbind (py_mul reference_value b) (\<lambda>hi.
     sbind (series_gt vs hi) (\<lambda>too_high.
     Inr (sum_bool (series_or too_low too_high)))))))))"

definition rules_dynamic_threshold :: "table \<Rightarrow> string \<Rightarrow> pynum \<Rightarrow> pynum \<Rightarrow> error + bool \<times> string" where
  "rules_dynamic_threshold df column reference_value tolerance =
     (case metrics_dynamic_threshold df column reference_value tolerance of
        Inl e \<Rightarrow> Inl e
      | Inr outliers \<Rightarrow> Inr (outliers = 0, str_nat outliers @ '' values exceed dynamic thresholds.''))"

subsection \<open>Variance\<close>

definition metrics_variance :: "nplib \<Rightarrow> table \<Rightarrow> string \<Rightarrow> error + pyfloat" where
  "metrics_variance lib df column =
     (case getitem df column of Inl e \<Rightarrow> Inl e | Inr vs \<Rightarrow> series_var lib vs)"

text \<open>The variance is a float64; an int \<^verbatim>\<open>max_variance\<close> is converted for the comparison.\<close>

definition rules_variance :: "nplib \<Rightarrow> pyfmt \<Rightarrow> table \<Rightarrow> string \<Rightarrow> pynum \<Rightarrow> error + bool \<times> string" where
  "rules_variance lib fmt df column max_variance =
     (case metrics_variance lib df column of
        Inl e \<Rightarrow> Inl e
      | Inr variance \<Rightarrow>
          sbind (to_float max_variance) (\<lambda>m.
          Inr (fle variance m,
               ''Variance ('' @ str_float64 fmt variance @ '') exceeds the maximum allowed (''
                 @ str_pynum fmt max_variance @ '').'')))"

subsection \<open>Anomalies in the number of records\<close>

definition metrics_record_anomalies ::
  "nplib \<Rightarrow> pynum list \<Rightarrow> int \<Rightarrow> error + pyfloat \<times> pyfloat" where
  "metrics_record_anomalies lib record_counts lookback_period =
     sbind (np_mean lib (slice_from (- lookback_period) record_counts)) (\<lambda>mean.
     sbind (np_std lib (slice_from (- lookback_period) record_counts)) (\<lambda>std_dev.
     Inr (mean, std_dev)))"

text \<open>The limits are float64 arithmetic on the two statistics; an int
  \<^verbatim>\<open>current_count\<close> is converted for the comparison.\<close>

definition rules_record_anomalies ::
  "nplib \<Rightarrow> pyfmt \<Rightarrow> pynum list \<Rightarrow> pynum \<Rightarrow> int \<Rightarrow> error + bool \<times> string" where
  "rules_record_anomalies lib fmt record_counts current_count lookback_period =
     (case metrics_record_anomalies lib record_counts lookback_period of
        Inl e \<Rightarrow> Inl e
      | Inr (mean, std_dev) \<Rightarrow>
          (let lower_limit = fsub mean (fmul (Fin 3) std_dev);
               upper_limit = fadd mean (fmul (Fin 3) std_dev)
           in sbind (to_float current_count) (\<lambda>c.
              Inr (fle lower_limit c \<and> fle c upper_limit,
                   ''Record count '' @ str_pynum fmt current_count
                     @ '' is outside 3 standard deviations ['' @ str_float64 fmt lower_limit
                     @ '', '' @ str_float64 fmt upper_limit @ ''] of the mean.''))))"

subsection \<open>Non-zero records\<close>

definition metrics_non_zero_records :: "table \<Rightarrow> nat" where
  "metrics_non_zero_records df = len_df df"

definition rules_non_zero_records :: "table \<Rightarrow> bool \<times> string" where
  "rules_non_zero_records df =
     (let record_count = metrics_non_zero_records df
      in (record_count > 0, ''No records found in the dataset.''))"

subsection \<open>Column name consistency\<close>

definition metrics_column_name_consistency :: "table \<Rightarrow> string list \<Rightarrow> string set" where
  "metrics_column_name_consistency df historical_columns =
     set historical_columns - set (df_columns df)"

definition rules_column_name_consistency :: "pyfmt \<Rightarrow> table \<Rightarrow> string list \<Rightarrow> bool \<times> string" where
  "rules_column_name_consistency fmt df historical_columns =
     (let inconsistent_cols = metrics_column_name_consistency df historical_columns
      in (card inconsistent_cols = 0,
          ''Inconsistent column names: '' @ str_set fmt inconsistent_cols))"

section \<open>Calling a check with \<^verbatim>\<open>*args\<close> and \<^verbatim>\<open>**kwargs\<close>\<close>

text \<open>
  The dispatchers forward whatever positional and keyword arguments they were given.
  Argument values are the tables, names, numbers and sequences the checks work on.
\<close>

datatype pyval =
    VTable table
  | VStr string
  | VInt int
  | VFloat pyfloat
  | VStrs "string list"
  | VNums "pynum list"

type_synonym kwargs = "(string \<times> pyval) list"

text \<open>
  Binding of a call to the parameters of a method (name and optional default, \<^verbatim>\<open>self\<close>
  left out): positional arguments fill the parameters from the left; each keyword must
  name a parameter not yet filled; then too many positional arguments, then parameters
  left without a value and without a default, raise TypeError.
\<close>

fun bind_kwargs :: "string list \<Rightarrow> string list \<Rightarrow> kwargs \<Rightarrow> kwargs \<Rightarrow> error + kwargs" where
  "bind_kwargs names filled [] acc = Inr acc"
| "bind_kwargs names filled ((k, v) # kws) acc =
     (if k \<notin> set names then Inl (TypeError (UnexpectedKeyword k))
      else if k \<in> set filled then Inl (TypeError (MultipleValues k))
      else bind_kwargs names filled kws (acc @ [(k, v)]))"

definition bind_args ::
  "(string \<times> pyval option) list \<Rightarrow> pyval list \<Rightarrow> kwargs \<Rightarrow> error + (string \<Rightarrow> pyval option)" where
  "bind_args params args kws =
     (let names = map fst params;
          positional = zip names args
      in case bind_kwargs names (map fst positional) kws [] of
           Inl e \<Rightarrow> Inl e
         | Inr named \<Rightarrow>
             if length args > length params then Inl (TypeError TooManyPositional)
             else
               (let given = map_of (positional @ named);
                    missing = filter (\<lambda>p. given (fst p) = None \<and> snd p = None) params
                in if missing \<noteq> [] then Inl (TypeError (MissingArguments (map fst missing)))
                   else Inr (\<lambda>n. case given n of
                                   Some v \<Rightarrow> Some v
                                 | None \<Rightarrow> (case map_of params n of Some d \<Rightarrow> d | None \<Rightarrow> None))))"

text \<open>
  The model is typed: a check receives a table, a name, a number, an integer or a
  sequence where it works on one; any other value is rendered as TypeError.
\<close>

definition arg_table :: "(string \<Rightarrow> pyval option) \<Rightarrow> string \<Rightarrow> error + table" where
  "arg_table env n = (case env n of Some (VTable t) \<Rightarrow> Inr t | _ \<Rightarrow> Inl (TypeError BadOperand))"

definition arg_str :: "(string \<Rightarrow> pyval option) \<Rightarrow> string \<Rightarrow> error + string" where
  "arg_str env n = (case env n of Some (VStr s) \<Rightarrow> Inr s | _ \<Rightarrow> Inl (TypeError BadOperand))"

definition arg_num :: "(string \<Rightarrow> pyval option) \<Rightarrow> string \<Rightarrow> error + pynum" where
  "arg_num env n =
     (case env n of
        Some (VInt i) \<Rightarrow> Inr (PInt i)
      | Some (VFloat f) \<Rightarrow> Inr (PFloat f)
      | _ \<Rightarrow> Inl (TypeError BadOperand))"

definition arg_int :: "(string \<Rightarrow> pyval option) \<Rightarrow> string \<Rightarrow> error + int" where
  "arg_int env n = (case env n of Some (VInt i) \<Rightarrow> Inr i | _ \<Rightarrow> Inl (TypeError BadOperand))"

definition arg_strs :: "(string \<Rightarrow> pyval option) \<Rightarrow> string \<Rightarrow> error + string list" where
  "arg_strs env n = (case env n of Some (VStrs xs) \<Rightarrow> Inr xs | _ \<Rightarrow> Inl (TypeError BadOperand))"

definition arg_nums :: "(string \<Rightarrow> pyval option) \<Rightarrow> string \<Rightarrow> error + pynum list" where
  "arg_nums env n = (case env n of Some (VNums xs) \<Rightarrow> Inr xs | _ \<Rightarrow> Inl (TypeError BadOperand))"

datatype metric_result =
    MCount nat
  | MSet "string set"
  | MDict "(string \<times> nat) list"
  | MFloat pyfloat
  | MPair pyfloat pyfloat

text \<open>Each check as the dispatchers call it: bind the arguments, then run the method.\<close>

definition call_metrics_unique_identifiers :: "pyval list \<Rightarrow> kwargs \<Rightarrow> error + metric_result" where
  "call_metrics_unique_identifiers args kws =
     sbind (bind_args [(''df'', None), (''id_col'', None)] args kws) (\<lambda>env.
     sbind (arg_table env ''df'') (\<lambda>df.
     sbind (arg_str env ''id_col'') (\<lambda>id_col.
     sbind (metrics_unique_identifiers df id_col) (\<lambda>r. Inr (MCount r)))))"

definition call_metrics_schema_consistency :: "pyval list \<Rightarrow> kwargs \<Rightarrow> error + metric_result" where
  "call_metrics_schema_consistency args kws =
     sbind (bind_args [(''df'', None), (''expected_columns'', None)] args kws) (\<lambda>env.
     sbind (arg_table env ''df'') (\<lambda>df.
     sbind (arg_strs env ''expected_columns'') (\<lambda>expected_columns.
     Inr (MSet (metrics_schema_consistency df expected_columns)))))"

definition call_metrics_non_null :: "pyval list \<Rightarrow> kwargs \<Rightarrow> error + metric_result" where
  "call_metrics_non_null args kws =
     sbind (bind_args [(''df'', None), (''columns'', None)] args kws) (\<lambda>env.
     sbind (arg_table env ''df'') (\<lambda>df.
     sbind (arg_strs env ''columns'') (\<lambda>columns.
     sbind (metrics_non_null df columns) (\<lambda>r. Inr (MDict r)))))"

definition call_metrics_threshold :: "pyval list \<Rightarrow> kwargs \<Rightarrow> error + metric_result" where
  "call_metrics_threshold args kws =
     sbind (bind_args [(''df'', None), (''column'', None), (''min_val'', None), (''max_val'', None)] args kws) (\<lambda>env.
     sbind (arg_table env ''df'') (\<lambda>df.
     sbind (arg_str env ''column'') (\<lambda>column.
     sbind (arg_num env ''min_val'') (\<lambda>min_val.
     sbind (arg_num env ''max_val'') (\<lambda>max_val.
     sbind (metrics_threshold df column min_val max_val) (\<lambda>r. Inr (MCount r)))))))"

definition call_metrics_dynamic_threshold :: "pyval list \<Rightarrow> kwargs \<Rightarrow> error + metric_result" where
  "call_metrics_dynamic_threshold args kws =
     sbind (bind_args [(''df'', None), (''column'', None), (''reference_value'', None), (''tolerance'', None)] args kws) (\<lambda>env.
     sbind (arg_table env ''df'') (\<lambda>df.
     sbind (arg_str env ''column'') (\<lambda>column.
     sbind (arg_num env ''reference_value'') (\<lambda>reference_value.
     sbind (arg_num env ''tolerance'') (\<lambda>tolerance.
     sbind (metrics_dynamic_threshold df column reference_value tolerance) (\<lambda>r. Inr (MCount r)))))))"

definition call_metrics_variance :: "nplib \<Rightarrow> pyval list \<Rightarrow> kwargs \<Rightarrow> error + metric_result" where
  "call_metrics_variance lib args kws =
     sbind (bind_args [(''df'', None), (''column'', None)] args kws) (\<lambda>env.
     sbind (arg_table env ''df'') (\<lambda>df.
     sbind (arg_str env ''column'') (\<lambda>column.
     sbind (metrics_variance lib df column) (\<lambda>r. Inr (MFloat r)))))"

definition call_metrics_record_anomalies :: "nplib \<Rightarrow> pyval list \<Rightarrow> kwargs \<Rightarrow> error + metric_result" where
  "call_metrics_record_anomalies lib args kws =
     sbind (bind_args [(''record_counts'', None), (''lookback_period'', Some (VInt 30))] args kws) (\<lambda>env.
     sbind (arg_nums env ''record_counts'') (\<lambda>record_counts.
     sbind (arg_int env ''lookback_period'') (\<lambda>lookback_period.
     sbind (metrics_record_anomalies lib record_counts lookback_period) (\<lambda>r.
     Inr (MPair (fst r) (snd r))))))"

definition call_metrics_non_zero_records :: "pyval list \<Rightarrow> kwargs \<Rightarrow> error + metric_result" where
  "call_metrics_non_zero_records args kws =
     sbind (bind_args [(''df'', None)] args kws) (\<lambda>env.
     sbind (arg_table env ''df'') (\<lambda>df.
     Inr (MCount (metrics_non_zero_records df))))"

definition call_metrics_column_name_consistency :: "pyval list \<Rightarrow> kwargs \<Rightarrow> error + metric_result" where
  "call_metrics_column_name_consistency args kws =
     sbind (bind_args [(''df'', None), (''historical_columns'', None)] args kws) (\<lambda>env.
     sbind (arg_table env ''df'') (\<lambda>df.
     sbind (arg_strs env ''historical_columns'') (\<lambda>historical_columns.
     Inr (MSet (metrics_column_name_consistency df historical_columns)))))"

definition call_rules_unique_identifiers :: "pyval list \<Rightarrow> kwargs \<Rightarrow> error + (bool \<times> string)" where
  "call_rules_unique_identifiers args kws =
     sbind (bind_args [(''df'', None), (''id_col'', None)] args kws) (\<lambda>env.
     sbind (arg_table env ''df'') (\<lambda>df.
     sbind (arg_str env ''id_col'') (\<lambda>id_col.
     rules_unique_identifiers df id_col)))"

definition call_rules_schema_consistency :: "pyfmt \<Rightarrow> pyval list \<Rightarrow> kwargs \<Rightarrow> error + (bool \<times> string)" where
  "call_rules_schema_consistency fmt args kws =
     sbind (bind_args [(''df'', None), (''expected_columns'', None)] args kws) (\<lambda>env.
     sbind (arg_table env ''df'') (\<lambda>df.
     sbind (arg_strs env ''expected_columns'') (\<lambda>expected_columns.
     Inr (rules_schema_consistency fmt df expected_columns))))"

definition call_rules_non_null :: "pyfmt \<Rightarrow> pyval list \<Rightarrow> kwargs \<Rightarrow> error + (bool \<times> string)" where
  "call_rules_non_null fmt args kws =
     sbind (bind_args [(''df'', None), (''columns'', None)] args kws) (\<lambda>env.
     sbind (arg_table env ''df'') (\<lambda>df.
     sbind (arg_strs env ''columns'') (\<lambda>columns.
     rules_non_null fmt df columns)))"

definition call_rules_threshold :: "pyfmt \<Rightarrow> pyval list \<Rightarrow> kwargs \<Rightarrow> error + (bool \<times> string)" where
  "call_rules_threshold fmt args kws =
     sbind (bind_args [(''df'', None), (''column'', None), (''min_val'', None), (''max_val'', None)] args kws) (\<lambda>env.
     sbind (arg_table env ''df'') (\<lambda>df.
     sbind (arg_str env ''column'') (\<lambda>column.
     sbind (arg_num env ''min_val'') (\<lambda>min_val.
     sbind (arg_num env ''max_val'') (\<lambda>max_val.
     rules_threshold fmt df column min_val max_val)))))"

definition call_rules_dynamic_threshold :: "pyval list \<Rightarrow> kwargs \<Rightarrow> error + (bool \<times> string)" where
  "call_rules_dynamic_threshold args kws =
     sbind (bind_args [(''df'', None), (''column'', None), (''reference_value'', None), (''tolerance'', None)] args kws) (\<lambda>env.
     sbind (arg_table env ''df'') (\<lambda>df.
     sbind (arg_str env ''column'') (\<lambda>column.
     sbind (arg_num env ''reference_value'') (\<lambda>reference_value.
     sbind (arg_num env ''tolerance'') (\<lambda>tolerance.
     rules_dynamic_threshold df column reference_value tolerance)))))"

definition call_rules_variance :: "nplib \<Rightarrow> pyfmt \<Rightarrow> pyval list \<Rightarrow> kwargs \<Rightarrow> error + (bool \<times> string)" where
  "call_rules_variance lib fmt args kws =
     sbind (bind_args [(''df'', None), (''column'', None), (''max_variance'', None)] args kws) (\<lambda>env.
     sbind (arg_table env ''df'') (\<lambda>df.
     sbind (arg_str env ''column'') (\<lambda>column.
     sbind (arg_num env ''max_variance'') (\<lambda>max_variance.
     rules_variance lib fmt df column max_variance))))"

definition call_rules_record_anomalies :: "nplib \<Rightarrow> pyfmt \<Rightarrow> pyval list \<Rightarrow> kwargs \<Rightarrow> error + (bool \<times> string)" where
  "call_rules_record_anomalies lib fmt args kws =
     sbind (bind_args [(''record_counts'', None), (''current_count'', None), (''lookback_period'', Some (VInt 30))] args kws) (\<lambda>env.
     sbind (arg_nums env ''record_counts'') (\<lambda>record_counts.
     sbind (arg_num env ''current_count'') (\<lambda>current_count.
     sbind (arg_int env ''lookback_period'') (\<lambda>lookback_period.
     rules_record_anomalies lib fmt record_counts current_count lookback_period))))"

definition call_rules_non_zero_records :: "pyval list \<Rightarrow> kwargs \<Rightarrow> error + (bool \<times> string)" where
  "call_rules_non_zero_records args kws =
     sbind (bind_args [(''df'', None)] args kws) (\<lambda>env.
     sbind (arg_table env ''df'') (\<lambda>df.
     Inr (rules_non_zero_records df)))"

definition call_rules_column_name_consistency :: "pyfmt \<Rightarrow> pyval list \<Rightarrow> kwargs \<Rightarrow> error + (bool \<times> string)" where
  "call_rules_column_name_consistency fmt args kws =
     sbind (bind_args [(''df'', None), (''historical_columns'', None)] args kws) (\<lambda>env.
     sbind (arg_table env ''df'') (\<lambda>df.
     sbind (arg_strs env ''historical_columns'') (\<lambda>historical_columns.
     Inr (rules_column_name_consistency fmt df historical_columns))))"

section \<open>The dispatchers\<close>

text \<open>
  \<^verbatim>\<open>metrics(self, check_type, *args, **kwargs)\<close> and \<^verbatim>\<open>rules\<close> after Python has bound
  \<^verbatim>\<open>check_type\<close>, \<^verbatim>\<open>args\<close> and \<^verbatim>\<open>kwargs\<close>: a dict from the nine names to the bound
  methods, a membership test, and the call or the ValueError.
\<close>

definition metrics_methods ::
  "nplib \<Rightarrow> (string \<times> (pyval list \<Rightarrow> kwargs \<Rightarrow> error + metric_result)) list" where
  "metrics_methods lib =
     [(''unique_identifiers'', call_metrics_unique_identifiers),
      (''schema_consistency'', call_metrics_schema_consistency),
      (''non_null'', call_metrics_non_null),
      (''threshold'', call_metrics_threshold),
      (''dynamic_threshold'', call_metrics_dynamic_threshold),
      (''variance'', call_metrics_variance lib),
      (''record_anomalies'', call_metrics_record_anomalies lib),
      (''non_zero_records'', call_metrics_non_zero_records),
      (''column_name_consistency'', call_metrics_column_name_consistency)]"

definition metrics :: "nplib \<Rightarrow> string \<Rightarrow> pyval list \<Rightarrow> kwargs \<Rightarrow> error + metric_result" where
  "metrics lib check_type args kws =
     (case map_of (metrics_methods lib) check_type of
        Some method \<Rightarrow> method args kws
      | None \<Rightarrow> Inl (ValueError (''Unknown check type for metrics: '' @ check_type)))"

definition rules_methods ::
  "nplib \<Rightarrow> pyfmt \<Rightarrow> (string \<times> (pyval list \<Rightarrow> kwargs \<Rightarrow> error + (bool \<times> string))) list" where
  "rules_methods lib fmt =
     [(''unique_identifiers'', call_rules_unique_identifiers),
      (''schema_consistency'', call_rules_schema_consistency fmt),
      (''non_null'', call_rules_non_null fmt),
      (''threshold'', call_rules_threshold fmt),
      (''dynamic_threshold'', call_rules_dynamic_threshold),
      (''variance'', call_rules_variance lib fmt),
      (''record_anomalies'', call_rules_record_anomalies lib fmt),
      (''non_zero_records'', call_rules_non_zero_records),
      (''column_name_consistency'', call_rules_column_name_consistency fmt)]"

definition rules ::
  "nplib \<Rightarrow> pyfmt \<Rightarrow> string \<Rightarrow> pyval list \<Rightarrow> kwargs \<Rightarrow> error + (bool \<times> string)" where
  "rules lib fmt check_type args kws =
     (case map_of (rules_methods lib fmt) check_type of
        Some method \<Rightarrow> method args kws
      | None \<Rightarrow> Inl (ValueError (''Unknown check type for rules: '' @ check_type)))"

section \<open>Inputs used for evaluation\<close>

text \<open>The table of the repository's tests: five rows, a repeated id and a missing name.\<close>

definition sample_data :: table where
  "sample_data =
     \<lparr>nrows = 5,
      tcols =
        [(''id'', [I64 1, I64 2, I64 3, I64 4, I64 4]),
         (''name'', [Str ''Alice'', Str ''Bob'', Str ''Charlie'', Str ''David'', Null]),
         (''value'', [I64 10, I64 20, I64 30, I64 40, I64 50]),
         (''timestamp'', [Ts 0, Ts 1, Ts 2, Ts 3, Ts 4])]\<rparr>"

text \<open>A table with an id column and no rows.\<close>

definition no_rows :: table where
  "no_rows = \<lparr>nrows = 0, tcols = [(''id'', [])]\<rparr>"

text \<open>A float64 column with a missing value.\<close>

definition readings :: table where
  "readings = \<lparr>nrows = 4, tcols = [(''reading'', [Num 1, Null, Num 3, Num 5])]\<rparr>"


text \<open>Int64 columns with values beyond \<open>2 ^ 53\<close>, where not every whole number is a float:
  \<open>3 * 2 ^ 53 + 3\<close>, and \<open>2 ^ 53\<close>, \<open>2 ^ 53 + 1\<close>, \<open>2 ^ 53 + 2\<close>.\<close>

definition large_count :: table where
  "large_count = \<lparr>nrows = 1, tcols = [(''count'', [I64 27021597764222979])]\<rparr>"

definition large_values :: table where
  "large_values =
     \<lparr>nrows = 3,
      tcols = [(''value'', [I64 9007199254740992, I64 9007199254740993, I64 9007199254740994])]\<rparr>"


text \<open>A renderer for evaluation at concrete inputs. A float that is a whole number below
  \<open>10 ^ 16\<close> is written as Python and numpy write it, the digits followed by \<^verbatim>\<open>.0\<close>; NaN and
  the infinities as \<^verbatim>\<open>nan\<close>, \<^verbatim>\<open>inf\<close> and \<^verbatim>\<open>-inf\<close>; any other float and a set render as a
  placeholder, a dict as its entries in order.\<close>

definition whole_float_text :: "pyfloat \<Rightarrow> string" where
  "whole_float_text f =
     (case f of
        NaN \<Rightarrow> ''nan''
      | PInf \<Rightarrow> ''inf''
      | NInf \<Rightarrow> ''-inf''
      | Fin x \<Rightarrow>
          if of_int \<lfloor>x\<rfloor> = x \<and> \<bar>x\<bar> < 10 ^ 16 then str_int \<lfloor>x\<rfloor> @ ''.0'' else ''?'')"

definition blank_fmt :: pyfmt where
  "blank_fmt =
     \<lparr>str_float = whole_float_text, str_float64 = whole_float_text, str_set = (\<lambda>x. ''?''),
      str_dict = (\<lambda>d. concat (map (\<lambda>kv. ''<'' @ fst kv @ ''='' @ str_nat (snd kv) @ ''>'') d))\<rparr>"

text \<open>
  Reductions for evaluation at concrete inputs: every sum is taken from left to right
  in float64, the mean is the sum divided by the count, the variances are the mean
  (or, for \<^verbatim>\<open>Series.var()\<close>, the sum over \<open>count - 1\<close>) of the squared distances from that
  mean. numpy adds in this order on sequences of fewer than eight numbers.
\<close>

fun fdiv_count :: "pyfloat \<Rightarrow> nat \<Rightarrow> pyfloat" where
  "fdiv_count (Fin a) n = (if n = 0 then NaN else r64 (a / real n))"
| "fdiv_count f n = f"

fun fsqrt :: "pyfloat \<Rightarrow> pyfloat" where
  "fsqrt (Fin a) = (if a < 0 then NaN else r64 (sqrt a))"
| "fsqrt PInf = PInf"
| "fsqrt f = NaN"

definition seq_sum :: "pyfloat list \<Rightarrow> pyfloat" where
  "seq_sum fs = foldl fadd (Fin 0) fs"

definition seq_sqdev :: "pyfloat list \<Rightarrow> pyfloat" where
  "seq_sqdev fs =
     (let m = fdiv_count (seq_sum fs) (length fs)
      in seq_sum (map (\<lambda>x. fmul (fsub x m) (fsub x m)) fs))"

definition num_float :: "pynum \<Rightarrow> pyfloat" where
  "num_float n = (case n of PInt i \<Rightarrow> r64 (of_int i) | PFloat f \<Rightarrow> f)"

definition seq_mean :: "pynum list \<Rightarrow> error + pyfloat" where
  "seq_mean ns =
     Inr (if ns = [] then NaN else fdiv_count (seq_sum (map num_float ns)) (length ns))"

definition seq_std :: "pynum list \<Rightarrow> error + pyfloat" where
  "seq_std ns =
     Inr (if ns = [] then NaN
          else fsqrt (fdiv_count (seq_sqdev (map num_float ns)) (length ns)))"

fun cell_floats :: "cell list \<Rightarrow> error + pyfloat list" where
  "cell_floats [] = Inr []"
| "cell_floats (Null # cs) = cell_floats cs"
| "cell_floats (Num x # cs) =
     (case cell_floats cs of Inl e \<Rightarrow> Inl e | Inr fs \<Rightarrow> Inr (r64 x # fs))"
| "cell_floats (I64 i # cs) =
     (case cell_floats cs of Inl e \<Rightarrow> Inl e | Inr fs \<Rightarrow> Inr (r64 (of_int i) # fs))"
| "cell_floats (Str s # cs) = Inl (TypeError BadOperand)"
| "cell_floats (Ts t # cs) = Inl (TypeError BadOperand)"

definition seq_var :: "cell list \<Rightarrow> error + pyfloat" where
  "seq_var vs =
     (case cell_floats vs of
        Inl e \<Rightarrow> Inl e
      | Inr fs \<Rightarrow> Inr (if length fs < 2 then NaN else fdiv_count (seq_sqdev fs) (length fs - 1)))"

definition seq_lib :: nplib where
  "seq_lib = \<lparr>np_mean = seq_mean, np_std = seq_std, series_var = seq_var\<rparr>"

section \<open>Notions the properties are stated with\<close>

text \<open>A number is a float64 value when rounding leaves it as it is.\<close>

definition is_f64 :: "real \<Rightarrow> bool" where
  "is_f64 x = (r64 x = Fin x)"

text \<open>The exact value of a cell and of a finite number.\<close>

definition cell_value :: "cell \<Rightarrow> real option" where
  "cell_value c = (case c of Num x \<Rightarrow> Some x | I64 i \<Rightarrow> Some (of_int i) | _ \<Rightarrow> None)"

definition num_value :: "pynum \<Rightarrow> real option" where
  "num_value n = (case n of PInt i \<Rightarrow> Some (of_int i) | PFloat (Fin x) \<Rightarrow> Some x | _ \<Rightarrow> None)"

text \<open>A numeric column holds int64 cells, float64 cells and missing values only.\<close>

definition numeric_column :: "cell list \<Rightarrow> bool" where
  "numeric_column vs =
     list_all (\<lambda>c. case c of Null \<Rightarrow> True | Num x \<Rightarrow> is_f64 x | I64 i \<Rightarrow> True | _ \<Rightarrow> False) vs"

text \<open>A bound is a finite float or an int that a float can hold after rounding.\<close>

definition finite_bound :: "pynum \<Rightarrow> bool" where
  "finite_bound n =
     (case n of
        PInt i \<Rightarrow> (\<exists>y. r64 (of_int i) = Fin y)
      | PFloat (Fin x) \<Rightarrow> is_f64 x
      | _ \<Rightarrow> False)"

text \<open>A cell counts as outside a range when it is a number strictly below the lower
  or strictly above the upper bound.\<close>

definition strictly_outside :: "real \<Rightarrow> real \<Rightarrow> cell \<Rightarrow> bool" where
  "strictly_outside lo hi c = (case cell_value c of Some x \<Rightarrow> x < lo \<or> hi < x | None \<Rightarrow> False)"

text \<open>The cells the threshold metric counts for two bounds.\<close>

definition counted :: "pynum \<Rightarrow> pynum \<Rightarrow> cell \<Rightarrow> bool" where
  "counted lo hi c = (cell_lt c lo = Inr True \<or> cell_gt c hi = Inr True)"

text \<open>A cell and a bound are compared without rounding when both are ints or both
  values are float64 values.\<close>

definition compared_exactly :: "cell \<Rightarrow> pynum \<Rightarrow> bool" where
  "compared_exactly c b =
     (case (c, b) of
        (I64 i, PInt j) \<Rightarrow> True
      | (I64 i, PFloat f) \<Rightarrow> is_f64 (of_int i)
      | (Num x, PInt j) \<Rightarrow> is_f64 (of_int j)
      | _ \<Rightarrow> True)"

text \<open>An int64 cell and an int bound are compared as ints.\<close>

definition compared_as_ints :: "cell \<Rightarrow> pynum \<Rightarrow> bool" where
  "compared_as_ints c b = (case (c, b) of (I64 i, PInt j) \<Rightarrow> True | _ \<Rightarrow> False)"

text \<open>Whether a Python number is an int.\<close>

definition is_pyint :: "pynum \<Rightarrow> bool" where
  "is_pyint n = (case n of PInt i \<Rightarrow> True | PFloat f \<Rightarrow> False)"

text \<open>A Python number as an argument of a call.\<close>

definition num_arg :: "pynum \<Rightarrow> pyval" where
  "num_arg n = (case n of PInt i \<Rightarrow> VInt i | PFloat f \<Rightarrow> VFloat f)"


text \<open>The number of missing values of a column of a table.\<close>

definition null_count :: "table \<Rightarrow> string \<Rightarrow> nat" where
  "null_count df c = (case map_of (tcols df) c of None \<Rightarrow> 0 | Some vs \<Rightarrow> count_list vs Null)"

text \<open>A table with one more column, and a table with a column taken away.\<close>

definition add_column :: "string \<Rightarrow> cell list \<Rightarrow> table \<Rightarrow> table" where
  "add_column c vs df = df\<lparr>tcols := tcols df @ [(c, vs)]\<rparr>"

definition drop_column :: "string \<Rightarrow> table \<Rightarrow> table" where
  "drop_column c df = df\<lparr>tcols := filter (\<lambda>p. fst p \<noteq> c) (tcols df)\<rparr>"

section \<open>Rounding\<close>

lemma floor_log2_iff:
  assumes "0 < x"
  shows "(\<lfloor>log 2 x\<rfloor> = k) = (2 powi k \<le> x \<and> x < 2 powi (k + 1))"
proof -
  have a: "(2::real) powr real_of_int k = 2 powi k"
    by (rule powr_real_of_int') simp_all
  have "(2::real) powr real_of_int (k + 1) = 2 powi (k + 1)"
    by (rule powr_real_of_int') simp_all
  then have b: "(2::real) powr (real_of_int k + 1) = 2 powi (k + 1)"
    by simp
  have c: "(2::real) powr real_of_int (k + 1) = 2 powi (k + 1)"
    by (rule powr_real_of_int') simp_all
  have "(\<lfloor>log 2 x\<rfloor> = k) = (2 powr real_of_int k \<le> x \<and> x < 2 powr real_of_int (k + 1))"
    using floor_log_eq_powr_iff [of x 2 k] assms by simp
  then show ?thesis
    by (simp only: a c)
qed

lemma floor_log2_bounds:
  assumes "0 < x"
  shows "2 powi \<lfloor>log 2 x\<rfloor> \<le> x" and "x < 2 powi (\<lfloor>log 2 x\<rfloor> + 1)"
  using floor_log2_iff [OF assms, of "\<lfloor>log 2 x\<rfloor>"] by simp_all

lemma expo_ge: "- 1074 \<le> expo x"
  by (simp add: expo_def)

lemma expo_minus: "expo (- x) = expo x"
  by (simp add: expo_def)

lemma expo_upper:
  assumes "x \<noteq> 0"
  shows "\<bar>x\<bar> < 2 powi (expo x + 53)"
proof -
  have "\<bar>x\<bar> < 2 powi (\<lfloor>log 2 \<bar>x\<bar>\<rfloor> + 1)"
    using assms by (intro floor_log2_bounds) simp
  also have "\<dots> \<le> 2 powi (expo x + 53)"
    by (intro power_int_increasing) (simp_all add: expo_def)
  finally show ?thesis .
qed

lemma expo_lower:
  assumes "x \<noteq> 0" and "- 1074 < expo x"
  shows "2 powi (expo x + 52) \<le> \<bar>x\<bar>"
proof -
  from assms(2) have "expo x + 52 = \<lfloor>log 2 \<bar>x\<bar>\<rfloor>"
    by (simp add: expo_def max_def split: if_splits)
  then show ?thesis
    using floor_log2_bounds(1) [of "\<bar>x\<bar>"] assms(1) by simp
qed

lemma expo_mono:
  assumes "x \<noteq> 0" and "\<bar>x\<bar> \<le> \<bar>y\<bar>"
  shows "expo x \<le> expo y"
proof -
  have "log 2 \<bar>x\<bar> \<le> log 2 \<bar>y\<bar>"
    using assms by (simp add: log_le_cancel_iff)
  then have "\<lfloor>log 2 \<bar>x\<bar>\<rfloor> \<le> \<lfloor>log 2 \<bar>y\<bar>\<rfloor>"
    by (rule floor_mono)
  then show ?thesis
    by (simp add: expo_def)
qed

lemma expo_eq:
  assumes "2 powi (e + 52) \<le> \<bar>x\<bar>" and "\<bar>x\<bar> < 2 powi (e + 53)" and "- 1074 \<le> e"
  shows "expo x = e"
proof -
  have pos: "0 < \<bar>x\<bar>"
    using assms(1) by (smt (verit) zero_less_power_int)
  have "\<lfloor>log 2 \<bar>x\<bar>\<rfloor> = e + 52"
    using floor_log2_iff [OF pos, of "e + 52"] assms(1,2) by (simp add: add.commute add.left_commute)
  then show ?thesis
    using assms(3) by (simp add: expo_def)
qed

lemma expo_subnormal:
  assumes "x \<noteq> 0" and "\<bar>x\<bar> < 2 powi (- 1022)"
  shows "expo x = - 1074"
proof -
  have "2 powi \<lfloor>log 2 \<bar>x\<bar>\<rfloor> \<le> \<bar>x\<bar>"
    using assms(1) by (intro floor_log2_bounds) simp
  with assms(2) have "(2::real) powi \<lfloor>log 2 \<bar>x\<bar>\<rfloor> < 2 powi (- 1022)"
    by linarith
  then have "\<lfloor>log 2 \<bar>x\<bar>\<rfloor> < - 1022"
    by (smt (verit) power_int_increasing)
  then have "\<lfloor>log 2 \<bar>x\<bar>\<rfloor> - 52 \<le> - 1074"
    by linarith
  then show ?thesis
    unfolding expo_def by (rule max_absorb2)
qed

lemma rne_bounds: "\<lfloor>q\<rfloor> \<le> rne q" "rne q \<le> \<lfloor>q\<rfloor> + 1"
  by (simp_all add: rne_def Let_def)

lemma rne_of_int [simp]: "rne (of_int k) = k"
  by (simp add: rne_def)

lemma rne_mono:
  assumes "q \<le> q'"
  shows "rne q \<le> rne q'"
proof (cases "\<lfloor>q\<rfloor> = \<lfloor>q'\<rfloor>")
  case True
  with assms show ?thesis
    by (auto simp: rne_def Let_def)
next
  case False
  moreover have "\<lfloor>q\<rfloor> \<le> \<lfloor>q'\<rfloor>"
    using assms by (rule floor_mono)
  ultimately have "\<lfloor>q\<rfloor> + 1 \<le> \<lfloor>q'\<rfloor>"
    by linarith
  with rne_bounds(2) [of q] rne_bounds(1) [of q'] show ?thesis
    by linarith
qed

lemma rne_ge: "of_int k \<le> q \<Longrightarrow> k \<le> rne q"
  using rne_mono [of "of_int k" q] by simp

lemma rne_le: "q \<le> of_int k \<Longrightarrow> rne q \<le> k"
  using rne_mono [of q "of_int k"] by simp

lemma rne_minus: "rne (- q) = - rne q"
proof (cases "of_int \<lfloor>q\<rfloor> = q")
  case True
  then obtain k where "q = of_int k"
    by metis
  then show ?thesis
    by (simp flip: of_int_minus)
next
  case False
  then have f: "\<lfloor>- q\<rfloor> = - \<lfloor>q\<rfloor> - 1"
    by linarith
  have "q - of_int \<lfloor>q\<rfloor> \<noteq> 0"
    using False by simp
  then show ?thesis
    unfolding rne_def Let_def f by (auto simp: algebra_simps)
qed

lemma rnd_zero [simp]: "rnd 0 = 0"
  by (simp add: rnd_def)

lemma rnd_minus: "rnd (- x) = - rnd x"
  by (simp add: rnd_def expo_minus rne_minus)

lemma rnd_nonneg:
  assumes "0 \<le> x"
  shows "0 \<le> rnd x"
proof -
  have "0 \<le> x / 2 powi expo x"
    using assms by simp
  then have "0 \<le> rne (x / 2 powi expo x)"
    using rne_ge [of 0] by simp
  then show ?thesis
    by (simp add: rnd_def)
qed

lemma rnd_mono_pos:
  assumes "0 < x" and "x \<le> y"
  shows "rnd x \<le> rnd y"
proof -
  have xy: "x \<noteq> 0" "y \<noteq> 0" "\<bar>x\<bar> = x" "\<bar>y\<bar> = y"
    using assms by simp_all
  have le: "expo x \<le> expo y"
    using expo_mono [of x y] assms by simp
  show ?thesis
  proof (cases "expo x = expo y")
    case True
    have "x / 2 powi expo y \<le> y / 2 powi expo y"
      using assms(2) by (simp add: divide_right_mono)
    then have "rne (x / 2 powi expo y) \<le> rne (y / 2 powi expo y)"
      by (rule rne_mono)
    then have "real_of_int (rne (x / 2 powi expo y)) * 2 powi expo y
        \<le> real_of_int (rne (y / 2 powi expo y)) * 2 powi expo y"
      by (intro mult_right_mono) simp_all
    then show ?thesis
      using xy by (simp add: rnd_def True)
  next
    case False
    with le have lt: "expo x + 1 \<le> expo y"
      by linarith
    then have "- 1074 < expo y"
      using expo_ge [of x] by linarith
    from expo_lower [OF xy(2) this] have "2 powi (expo y + 52) \<le> y"
      using xy by simp
    then have "2 powi 52 * 2 powi expo y \<le> y"
      by (simp add: power_int_add mult.commute)
    then have "2 powi 52 \<le> y / 2 powi expo y"
      by (simp add: pos_le_divide_eq)
    then have "real_of_int (2 ^ 52) \<le> y / 2 powi expo y"
      by simp
    then have "2 ^ 52 \<le> rne (y / 2 powi expo y)"
      by (rule rne_ge)
    then have "real_of_int (2 ^ 52) * 2 powi expo y \<le> real_of_int (rne (y / 2 powi expo y)) * 2 powi expo y"
      by (intro mult_right_mono) simp_all
    then have ylow: "2 powi (expo y + 52) \<le> rnd y"
      using xy by (simp add: rnd_def power_int_add mult.commute)
    from expo_upper [OF xy(1)] have "x < 2 powi (expo x + 53)"
      using xy by simp
    then have "x < 2 powi 53 * 2 powi expo x"
      by (simp add: power_int_add mult.commute)
    then have "x / 2 powi expo x \<le> 2 powi 53"
      by (simp add: pos_divide_le_eq)
    then have "x / 2 powi expo x \<le> real_of_int (2 ^ 53)"
      by simp
    then have "rne (x / 2 powi expo x) \<le> 2 ^ 53"
      by (rule rne_le)
    then have "real_of_int (rne (x / 2 powi expo x)) * 2 powi expo x \<le> real_of_int (2 ^ 53) * 2 powi expo x"
      by (intro mult_right_mono) simp_all
    then have "rnd x \<le> 2 powi (expo x + 53)"
      using xy by (simp add: rnd_def power_int_add mult.commute)
    also have "\<dots> \<le> 2 powi (expo y + 52)"
      using lt by (intro power_int_increasing) simp_all
    also note ylow
    finally show ?thesis .
  qed
qed

lemma rnd_mono:
  assumes "x \<le> y"
  shows "rnd x \<le> rnd y"
proof -
  consider "0 < x" | "x \<le> 0" "0 \<le> y" | "y < 0"
    using assms by linarith
  then show ?thesis
  proof cases
    case 1
    then show ?thesis using assms by (rule rnd_mono_pos)
  next
    case 2
    have "0 \<le> rnd (- x)"
      using 2(1) by (intro rnd_nonneg) simp
    then have "rnd x \<le> 0"
      by (simp add: rnd_minus)
    also have "0 \<le> rnd y"
      using 2(2) by (rule rnd_nonneg)
    finally show ?thesis .
  next
    case 3
    then have "rnd (- y) \<le> rnd (- x)"
      using assms by (intro rnd_mono_pos) simp_all
    then show ?thesis
      by (simp add: rnd_minus)
  qed
qed

text \<open>A number with a 53-bit significand at a representable exponent is not changed.\<close>

lemma rnd_exact:
  assumes "x = of_int m * 2 powi e" and "\<bar>m\<bar> < 2 ^ 53" and "- 1074 \<le> e"
  shows "rnd x = x"
proof (cases "x = 0")
  case True
  then show ?thesis by simp
next
  case False
  have "\<bar>x\<bar> = of_int \<bar>m\<bar> * 2 powi e"
    by (simp add: assms(1) abs_mult)
  also have "\<dots> < of_int (2 ^ 53) * 2 powi e"
    using assms(2) by (intro mult_strict_right_mono) simp_all
  also have "\<dots> = 2 powi (e + 53)"
    by (simp add: power_int_add mult.commute)
  finally have up: "\<bar>x\<bar> < 2 powi (e + 53)" .
  have "2 powi \<lfloor>log 2 \<bar>x\<bar>\<rfloor> \<le> \<bar>x\<bar>"
    using False by (intro floor_log2_bounds) simp
  with up have "(2::real) powi \<lfloor>log 2 \<bar>x\<bar>\<rfloor> < 2 powi (e + 53)"
    by linarith
  then have "\<lfloor>log 2 \<bar>x\<bar>\<rfloor> < e + 53"
    by (smt (verit) power_int_increasing)
  with assms(3) have le: "expo x \<le> e"
    by (simp add: expo_def)
  define k where "k = nat (e - expo x)"
  define p where "p = (2::real) powi expo x"
  have ppos: "0 < p"
    by (simp add: p_def)
  have "e = expo x + int k"
    using le by (simp add: k_def)
  then have "(2::real) powi e = 2 powi (expo x + int k)"
    by (rule arg_cong)
  also have "\<dots> = p * 2 ^ k"
    by (simp add: p_def power_int_add)
  finally have pe: "(2::real) powi e = p * 2 ^ k" .
  have xp: "x = of_int (m * 2 ^ k) * p"
    by (simp add: assms(1) pe)
  then have "x / p = of_int (m * 2 ^ k)"
    using ppos by simp
  then have "rne (x / p) = m * 2 ^ k"
    by (simp only: rne_of_int)
  moreover have "rnd x = of_int (rne (x / p)) * p"
    using False by (simp add: rnd_def p_def)
  ultimately have "rnd x = of_int (m * 2 ^ k) * p"
    by (simp only:)
  with xp show ?thesis
    by (simp only:)
qed

text \<open>Rounding with the exponent given, for evaluation at a concrete number.\<close>

lemma rnd_at:
  assumes "2 powi (e + 52) \<le> \<bar>x\<bar>" and "\<bar>x\<bar> < 2 powi (e + 53)" and "- 1074 \<le> e"
  shows "rnd x = of_int (rne (x / 2 powi e)) * 2 powi e"
proof -
  have "x \<noteq> 0"
    using assms(1) by (smt (verit) zero_less_power_int)
  then show ?thesis
    by (simp add: rnd_def expo_eq [OF assms])
qed

lemma rne_split:
  assumes "0 \<le> d" and "d < 1"
  shows "rne (of_int n + d) =
           (if d < 1 / 2 then n else if 1 / 2 < d then n + 1 else if even n then n else n + 1)"
proof -
  have "\<lfloor>of_int n + d\<rfloor> = n"
    using assms by linarith
  then show ?thesis
    by (simp add: rne_def Let_def)
qed

lemma rnd_bound:
  assumes "x \<noteq> 0"
  shows "\<bar>rne (x / 2 powi expo x)\<bar> \<le> 2 ^ 53"
proof -
  define q where "q = x / 2 powi expo x"
  have "\<bar>x\<bar> < 2 powi (expo x + 53)"
    using assms by (rule expo_upper)
  then have "\<bar>x\<bar> < 2 powi 53 * 2 powi expo x"
    by (simp add: power_int_add mult.commute)
  then have "\<bar>x\<bar> / 2 powi expo x \<le> 2 powi 53"
    by (simp add: pos_divide_le_eq)
  then have a: "\<bar>q\<bar> \<le> 2 ^ 53"
    by (simp add: q_def)
  then have "q \<le> real_of_int (2 ^ 53)"
    by simp
  then have u: "rne q \<le> 2 ^ 53"
    by (rule rne_le)
  from a have "- (2 ^ 53) \<le> q"
    by linarith
  then have "real_of_int (- (2 ^ 53)) \<le> q"
    by simp
  then have "- (2 ^ 53) \<le> rne q"
    by (rule rne_ge)
  with u show ?thesis
    unfolding q_def by linarith
qed

lemma rnd_idem: "rnd (rnd x) = rnd x"
proof (cases "x = 0")
  case True
  then show ?thesis by simp
next
  case False
  define n where "n = rne (x / 2 powi expo x)"
  have r: "rnd x = of_int n * 2 powi expo x"
    using False by (simp add: rnd_def n_def)
  have b: "\<bar>n\<bar> \<le> 2 ^ 53"
    unfolding n_def using False by (rule rnd_bound)
  have e: "- 1074 \<le> expo x + 53"
    using expo_ge [of x] by linarith
  consider "\<bar>n\<bar> < 2 ^ 53" | "n = 2 ^ 53" | "n = - (2 ^ 53)"
    using b by linarith
  then show ?thesis
  proof cases
    case 1
    then show ?thesis
      using rnd_exact [OF r _ expo_ge] by simp
  next
    case 2
    then have "rnd x = of_int 1 * 2 powi (expo x + 53)"
      by (simp add: r power_int_add)
    from rnd_exact [OF this _ e] show ?thesis
      by simp
  next
    case 3
    then have "rnd x = of_int (- 1) * 2 powi (expo x + 53)"
      by (simp add: r power_int_add)
    from rnd_exact [OF this _ e] show ?thesis
      by simp
  qed
qed

lemma r64_Fin_iff: "(r64 x = Fin y) = (rnd x = y \<and> \<bar>y\<bar> < 2 ^ 1024)"
  by (auto simp: r64_def Let_def)

lemma r64_is_f64: "r64 x = Fin y \<Longrightarrow> is_f64 y"
  by (auto simp: is_f64_def r64_Fin_iff rnd_idem)

lemma r64_exact:
  assumes "x = of_int m * 2 powi e" and "\<bar>m\<bar> < 2 ^ 53" and "- 1074 \<le> e" and "\<bar>x\<bar> < 2 ^ 1024"
  shows "r64 x = Fin x"
  using rnd_exact [OF assms(1,2,3)] assms(4) by (simp add: r64_Fin_iff)

lemma r64_of_int:
  assumes "\<bar>i\<bar> \<le> 2 ^ 53"
  shows "r64 (of_int i) = Fin (of_int i)"
proof -
  have "\<bar>real_of_int i\<bar> \<le> 2 ^ 53"
    using assms by (metis of_int_abs of_int_le_iff of_int_numeral of_int_power)
  also have "(2::real) ^ 53 < 2 ^ 1024"
    by simp
  finally have small: "\<bar>real_of_int i\<bar> < 2 ^ 1024" .
  consider "\<bar>i\<bar> < 2 ^ 53" | "i = 2 ^ 53" | "i = - (2 ^ 53)"
    using assms by linarith
  then show ?thesis
  proof cases
    case 1
    then show ?thesis
      using r64_exact [of "of_int i" i 0] small by simp
  next
    case 2
    then have "real_of_int i = of_int 1 * 2 powi 53"
      by simp
    from r64_exact [OF this _ _ small] show ?thesis
      by simp
  next
    case 3
    then have "real_of_int i = of_int (- 1) * 2 powi 53"
      by simp
    from r64_exact [OF this _ _ small] show ?thesis
      by simp
  qed
qed

lemma r64_numeral [simp]:
  "(numeral k :: int) \<le> 2 ^ 53 \<Longrightarrow> r64 (numeral k) = Fin (numeral k)"
  using r64_of_int [of "numeral k"] by simp

lemma r64_neg_numeral [simp]:
  "(numeral k :: int) \<le> 2 ^ 53 \<Longrightarrow> r64 (- numeral k) = Fin (- numeral k)"
  using r64_of_int [of "- numeral k"] by simp

lemma r64_0 [simp]: "r64 0 = Fin 0"
  using r64_of_int [of 0] by simp

lemma r64_1 [simp]: "r64 1 = Fin 1"
  using r64_of_int [of 1] by simp

lemma fle_refl_iff: "fle a a = (a \<noteq> NaN)"
  by (cases a) (simp_all add: fle_def)

lemma fle_Fin [simp]: "fle (Fin a) (Fin b) = (a \<le> b)"
  by (auto simp: fle_def)

lemma r64_mono:
  assumes "x \<le> y"
  shows "fle (r64 x) (r64 y)"
proof -
  have "rnd x \<le> rnd y"
    using assms by (rule rnd_mono)
  then show ?thesis
    by (auto simp: r64_def Let_def fle_def)
qed

section \<open>Rounding at the numbers of the examples\<close>

lemma r64_half: "r64 (1 / 2) = Fin (1 / 2)"
  using r64_exact [of "1 / 2" 1 "- 1"] by simp

lemma r64_three_halves: "r64 (3 / 2) = Fin (3 / 2)"
  using r64_exact [of "3 / 2" 3 "- 1"] by simp

text \<open>Rounding around \<open>3 * 2 ^ 53\<close>, where the floats are the multiples of 4, and just
  above and below 1.\<close>

lemma r64_large_count:
  "r64 27021597764222976 = Fin 27021597764222976"
  "r64 27021597764222979 = Fin 27021597764222980"
  "r64 27021597764222973 = Fin 27021597764222972"
proof -
  show "r64 27021597764222976 = Fin 27021597764222976"
    using r64_exact [of 27021597764222976 3 53] by simp
  have "rnd 27021597764222979 = 27021597764222980"
    using rnd_at [of 2 27021597764222979] by (simp add: rne_def)
  then show "r64 27021597764222979 = Fin 27021597764222980"
    by (simp add: r64_Fin_iff)
  have "rnd 27021597764222973 = 27021597764222972"
    using rnd_at [of 2 27021597764222973] by (simp add: rne_def)
  then show "r64 27021597764222973 = Fin 27021597764222972"
    by (simp add: r64_Fin_iff)
qed

lemma r64_below_one: "r64 (1 - 1 / 2 ^ 53) = Fin (1 - 1 / 2 ^ 53)"
  using r64_exact [of "1 - 1 / 2 ^ 53" "2 ^ 53 - 1" "- 53"] by simp

lemma r64_tiny: "r64 (1 / 2 ^ 53) = Fin (1 / 2 ^ 53)"
  using r64_exact [of "1 / 2 ^ 53" 1 "- 53"] by simp

lemma r64_above_one: "r64 (1 + 1 / 2 ^ 53) = Fin 1"
proof -
  have "(1 + 1 / 2 ^ 53) / 2 powi (- 52) = of_int 4503599627370496 + (1 / 2 :: real)"
    by simp
  then have "rne ((1 + 1 / 2 ^ 53) / 2 powi (- 52)) = 4503599627370496"
    by (simp only: rne_split) simp
  then have "rnd (1 + 1 / 2 ^ 53) = 1"
    using rnd_at [of "- 52" "1 + 1 / 2 ^ 53"] by simp
  then show ?thesis
    by (simp add: r64_Fin_iff)
qed


text \<open>Rounding at \<open>2 ^ 53\<close> and at \<open>3 * 2 ^ 53\<close>: \<open>2 ^ 53 + 1\<close> lies halfway between two
  floats and goes to \<open>2 ^ 53\<close>, \<open>3 * 2 ^ 53 + 2\<close> goes to \<open>3 * 2 ^ 53\<close>.\<close>

lemma r64_large_values:
  "r64 9007199254740993 = Fin 9007199254740992"
  "r64 9007199254740994 = Fin 9007199254740994"
  "r64 18014398509481984 = Fin 18014398509481984"
  "r64 27021597764222978 = Fin 27021597764222976"
proof -
  have "(9007199254740993 :: real) / 2 powi 1 = of_int 4503599627370496 + 1 / 2"
    by simp
  then have "rne (9007199254740993 / 2 powi 1) = 4503599627370496"
    by (simp only: rne_split) simp
  then have "rnd 9007199254740993 = 9007199254740992"
    using rnd_at [of 1 9007199254740993] by simp
  then show "r64 9007199254740993 = Fin 9007199254740992"
    by (simp add: r64_Fin_iff)
  show "r64 9007199254740994 = Fin 9007199254740994"
    using r64_exact [of 9007199254740994 4503599627370497 1] by simp
  show "r64 18014398509481984 = Fin 18014398509481984"
    using r64_exact [of 18014398509481984 1 54] by simp
  have "(27021597764222978 :: real) / 2 powi 2 = of_int 6755399441055744 + 1 / 2"
    by simp
  then have "rne (27021597764222978 / 2 powi 2) = 6755399441055744"
    by (simp only: rne_split) simp
  then have "rnd 27021597764222978 = 27021597764222976"
    using rnd_at [of 2 27021597764222978] by simp
  then show "r64 27021597764222978 = Fin 27021597764222976"
    by (simp add: r64_Fin_iff)
qed


section \<open>Unfolding the calls\<close>

lemmas dispatch_defs =
  metrics_def metrics_methods_def rules_def rules_methods_def

lemmas series_defs =
  getitem_def df_columns_def len_df_def duplicated_def sum_bool_def isnull_def
  series_lt_def series_gt_def series_or_def outside_count_def slice_from_def digit_char_def

section \<open>Unknown check types\<close>

text \<open>
  Claim C1. For every string \<open>check_type\<close> that is not one of the nine recognized
  names, and for any further positional and keyword arguments (those Python collects
  in \<^verbatim>\<open>*args\<close> and \<^verbatim>\<open>**kwargs\<close>), both dispatchers fail with the unknown-check-type
  error (a ValueError) whose message ends with the offending \<open>check_type\<close>; neither
  returns a value.
\<close>

theorem unknown_check_type:
  assumes "check_type \<notin> {''unique_identifiers'', ''schema_consistency'', ''non_null'',
             ''threshold'', ''dynamic_threshold'', ''variance'', ''record_anomalies'',
             ''non_zero_records'', ''column_name_consistency''}"
  shows "metrics lib check_type args kws =
           Inl (ValueError (''Unknown check type for metrics: '' @ check_type))
         \<and> rules lib fmt check_type args kws' =
           Inl (ValueError (''Unknown check type for rules: '' @ check_type))
         \<and> (\<nexists>v. metrics lib check_type args kws = Inr v)
         \<and> (\<nexists>v. rules lib fmt check_type args kws' = Inr v)"
proof -
  have m: "map_of (metrics_methods lib) check_type = None"
    using assms by (simp add: metrics_methods_def)
  have r: "map_of (rules_methods lib fmt) check_type = None"
    using assms by (simp add: rules_methods_def)
  show ?thesis
    by (simp add: metrics_def rules_def m r)
qed

text \<open>The check name the repository's tests use for the row-count check is not one of
  the nine: it is refused by both dispatchers.\<close>

theorem unknown_check_type_witness:
  "''record_count_greater_than_zero'' \<notin> {''unique_identifiers'', ''schema_consistency'',
       ''non_null'', ''threshold'', ''dynamic_threshold'', ''variance'', ''record_anomalies'',
       ''non_zero_records'', ''column_name_consistency''}
   \<and> metrics seq_lib ''record_count_greater_than_zero'' [VTable sample_data] [] =
       Inl (ValueError ''Unknown check type for metrics: record_count_greater_than_zero'')
   \<and> rules seq_lib blank_fmt ''record_count_greater_than_zero'' [VTable sample_data] [] =
       Inl (ValueError ''Unknown check type for rules: record_count_greater_than_zero'')"
proof -
  have h: "''record_count_greater_than_zero'' \<notin> {''unique_identifiers'',
       ''schema_consistency'', ''non_null'', ''threshold'', ''dynamic_threshold'', ''variance'',
       ''record_anomalies'', ''non_zero_records'', ''column_name_consistency''}"
    by simp
  show ?thesis
    using h unknown_check_type [OF h, of seq_lib "[VTable sample_data]" "[]" blank_fmt "[]"]
    by simp
qed

section \<open>Unique identifiers\<close>

lemma card_diff_le_length: "card (set xs - S) \<le> length xs"
proof -
  have "card (set xs - S) \<le> card (set xs)"
    by (rule card_mono) auto
  also have "\<dots> \<le> length xs"
    by (rule card_length)
  finally show ?thesis .
qed

lemma sum_bool_Cons: "sum_bool (b # bs) = (if b then Suc (sum_bool bs) else sum_bool bs)"
  by (simp add: sum_bool_def)

lemma sum_bool_duplicated_from:
  "sum_bool (duplicated_from seen xs) = length xs - card (set xs - set seen)"
proof (induction xs arbitrary: seen)
  case Nil
  then show ?case by (simp add: sum_bool_def)
next
  case (Cons x xs)
  have le: "card (set xs - set (x # seen)) \<le> length xs"
    by (rule card_diff_le_length)
  show ?case
  proof (cases "x \<in> set seen")
    case True
    then have eq: "set (x # xs) - set seen = set xs - set (x # seen)"
      by auto
    show ?thesis
      using True le by (simp only: duplicated_from.simps sum_bool_Cons Cons.IH eq) simp
  next
    case False
    then have eq: "set (x # xs) - set seen = insert x (set xs - set (x # seen))"
      by auto
    have "card (set (x # xs) - set seen) = Suc (card (set xs - set (x # seen)))"
      unfolding eq by (rule card_insert_disjoint) auto
    then show ?thesis
      using False le by (simp only: duplicated_from.simps sum_bool_Cons Cons.IH) simp
  qed
qed

lemma sum_bool_duplicated: "sum_bool (duplicated xs) = length xs - card (set xs)"
  by (simp add: duplicated_def sum_bool_duplicated_from)

lemma wf_table_column_length:
  assumes "wf_table df" and "map_of (tcols df) c = Some vs"
  shows "length vs = nrows df"
proof -
  have "(c, vs) \<in> set (tcols df)"
    using assms(2) by (rule map_of_SomeD)
  then show ?thesis
    using assms(1) by (auto simp: wf_table_def list_all_iff)
qed

text \<open>
  Claim C2. For a well-formed table \<open>T\<close> (all columns as long as the table) with an
  identifier column \<open>C\<close>, the metric is the row count minus the number of distinct
  values of the column, and the rule passes iff that count is 0, reporting the count.
  For the ids 1, 2, 3, 4, 4 the metric is 1 and the rule returns
  (False, "1 duplicate identifiers found.").
\<close>

theorem unique_identifiers_count:
  assumes "wf_table T" and "getitem T C = Inr vs"
  shows "metrics lib ''unique_identifiers'' [VTable T, VStr C] [] =
           Inr (MCount (len_df T - card (set vs)))
         \<and> rules lib fmt ''unique_identifiers'' [VTable T, VStr C] [] =
           Inr (len_df T - card (set vs) = 0,
                str_nat (len_df T - card (set vs)) @ '' duplicate identifiers found.'')
         \<and> metrics lib ''unique_identifiers'' [VTable sample_data, VStr ''id''] [] = Inr (MCount 1)
         \<and> rules lib fmt ''unique_identifiers'' [VTable sample_data, VStr ''id''] [] =
           Inr (False, ''1 duplicate identifiers found.'')"
proof -
  have col: "map_of (tcols T) C = Some vs"
    using assms(2) by (simp add: getitem_def split: option.splits)
  have len: "length vs = len_df T"
    using wf_table_column_length [OF assms(1) col] by (simp add: len_df_def)
  have m: "metrics_unique_identifiers T C = Inr (len_df T - card (set vs))"
    by (simp add: metrics_unique_identifiers_def assms(2) sum_bool_duplicated len)
  have r: "rules_unique_identifiers T C =
      Inr (len_df T - card (set vs) = 0,
           str_nat (len_df T - card (set vs)) @ '' duplicate identifiers found.'')"
    by (simp only: rules_unique_identifiers_def m sum.case)
  have sm: "metrics_unique_identifiers sample_data ''id'' = Inr 1"
    by (simp add: metrics_unique_identifiers_def sample_data_def series_defs)
  have sr: "rules_unique_identifiers sample_data ''id'' = Inr (False, ''1 duplicate identifiers found.'')"
    by (simp add: rules_unique_identifiers_def sm digit_char_def)
  have d1: "metrics lib ''unique_identifiers'' [VTable T', VStr C'] [] =
      sbind (metrics_unique_identifiers T' C') (\<lambda>r. Inr (MCount r))" for T' C'
    by (simp add: dispatch_defs call_metrics_unique_identifiers_def bind_args_def sbind_def
        arg_table_def arg_str_def)
  have d2: "rules lib fmt ''unique_identifiers'' [VTable T', VStr C'] [] = rules_unique_identifiers T' C'" for T' C'
    by (simp add: dispatch_defs call_rules_unique_identifiers_def bind_args_def sbind_def
        arg_table_def arg_str_def)
  show ?thesis
    by (simp only: d1 d2 m r sm sr) (simp add: sbind_def)
qed

theorem unique_identifiers_count_witness:
  "wf_table sample_data
   \<and> getitem sample_data ''id'' = Inr [I64 1, I64 2, I64 3, I64 4, I64 4]
   \<and> metrics seq_lib ''unique_identifiers'' [VTable sample_data, VStr ''id''] [] = Inr (MCount (5 - 4))
   \<and> rules seq_lib blank_fmt ''unique_identifiers'' [VTable sample_data, VStr ''id''] [] =
       Inr (False, ''1 duplicate identifiers found.'')"
proof -
  have w: "wf_table sample_data"
    by (simp add: wf_table_def sample_data_def)
  have g: "getitem sample_data ''id'' = Inr [I64 1, I64 2, I64 3, I64 4, I64 4]"
    by (simp add: getitem_def sample_data_def)
  have l: "len_df sample_data = 5"
    by (simp add: len_df_def sample_data_def)
  have c: "card (set [I64 1, I64 2, I64 3, I64 4, I64 4]) = 4"
    by simp
  show ?thesis
    using w g unique_identifiers_count [OF w g, of seq_lib blank_fmt] by (simp add: l c digit_char_def)
qed

section \<open>Threshold and dynamic threshold\<close>

lemma flt_irrefl: "\<not> flt a a"
  by (cases a) simp_all

lemma flt_not_fle: "fle a b \<Longrightarrow> \<not> flt b a"
  by (cases a; cases b) (auto simp: fle_def)

lemma flt_r64_less: "flt (r64 u) (r64 v) \<Longrightarrow> u < v"
  using r64_mono [of v u] flt_not_fle [of "r64 v" "r64 u"] by (cases "u < v") auto

lemma is_f64_r64: "is_f64 x \<Longrightarrow> r64 x = Fin x"
  by (simp add: is_f64_def)

lemma to_float_finite:
  assumes "finite_bound b" and "num_value b = Some v"
  shows "to_float b = Inr (r64 v)"
proof (cases b)
  case (PInt i)
  then show ?thesis
    using assms by (auto simp: finite_bound_def num_value_def to_float_def)
next
  case (PFloat f)
  then show ?thesis
    using assms by (cases f) (auto simp: finite_bound_def num_value_def to_float_def is_f64_def)
qed

lemma numeric_column_mem:
  "numeric_column vs \<Longrightarrow> c \<in> set vs \<Longrightarrow>
     c = Null \<or> (\<exists>x. c = Num x \<and> is_f64 x) \<or> (\<exists>i. c = I64 i)"
  by (cases c) (auto simp: numeric_column_def list_all_iff)

lemma numeric_column_Cons:
  "numeric_column (c # cs) =
     ((c = Null \<or> (\<exists>x. c = Num x \<and> is_f64 x) \<or> (\<exists>i. c = I64 i)) \<and> numeric_column cs)"
  by (cases c) (simp_all add: numeric_column_def)

lemma cell_lt_numeric:
  assumes "c = Null \<or> (\<exists>x. c = Num x \<and> is_f64 x) \<or> (\<exists>i. c = I64 i)"
    and "to_float b = Inr f"
  shows "\<exists>r. cell_lt c b = Inr r"
  using assms by (cases c; cases b) (auto simp: sbind_def)

lemma cell_gt_numeric:
  assumes "c = Null \<or> (\<exists>x. c = Num x \<and> is_f64 x) \<or> (\<exists>i. c = I64 i)"
    and "to_float b = Inr f"
  shows "\<exists>r. cell_gt c b = Inr r"
  using assms by (cases c; cases b) (auto simp: sbind_def)

lemma series_lt_numeric:
  assumes "numeric_column vs" and "to_float b = Inr f"
  shows "series_lt vs b = Inr (map (\<lambda>c. cell_lt c b = Inr True) vs)"
  using assms(1) unfolding series_lt_def
proof (induction vs)
  case Nil
  then show ?case by simp
next
  case (Cons c cs)
  then have c: "c = Null \<or> (\<exists>x. c = Num x \<and> is_f64 x) \<or> (\<exists>i. c = I64 i)"
    and cs: "numeric_column cs"
    by (simp_all add: numeric_column_Cons)
  obtain r where "cell_lt c b = Inr r"
    using cell_lt_numeric [OF c assms(2)] by blast
  then show ?case
    using Cons.IH [OF cs] by simp
qed

lemma series_gt_numeric:
  assumes "numeric_column vs" and "to_float b = Inr f"
  shows "series_gt vs b = Inr (map (\<lambda>c. cell_gt c b = Inr True) vs)"
  using assms(1) unfolding series_gt_def
proof (induction vs)
  case Nil
  then show ?case by simp
next
  case (Cons c cs)
  then have c: "c = Null \<or> (\<exists>x. c = Num x \<and> is_f64 x) \<or> (\<exists>i. c = I64 i)"
    and cs: "numeric_column cs"
    by (simp_all add: numeric_column_Cons)
  obtain r where "cell_gt c b = Inr r"
    using cell_gt_numeric [OF c assms(2)] by blast
  then show ?case
    using Cons.IH [OF cs] by simp
qed

lemma sum_bool_series_or_map:
  "sum_bool (series_or (map f vs) (map g vs)) = length (filter (\<lambda>c. f c \<or> g c) vs)"
  unfolding sum_bool_def series_or_def
  by (induction vs) auto

lemma counted_filter:
  "filter (\<lambda>c. cell_lt c lo = Inr True \<or> cell_gt c hi = Inr True) vs = filter (counted lo hi) vs"
  by (simp add: counted_def [abs_def])

lemma outside_count_numeric:
  assumes "numeric_column vs" and "to_float lo = Inr f" and "to_float hi = Inr g"
  shows "outside_count vs lo hi = Inr (length (filter (counted lo hi) vs))"
  by (simp add: outside_count_def series_lt_numeric [OF assms(1,2)]
      series_gt_numeric [OF assms(1,3)] sum_bool_series_or_map counted_filter)

lemma dynamic_threshold_bounds:
  assumes "getitem T C = Inr vs" and "numeric_column vs"
    and "to_float lo = Inr f" and "to_float hi = Inr g"
    and "py_sub (PInt 1) tol = Inr a" and "py_mul ref a = Inr lo"
    and "py_add (PInt 1) tol = Inr b" and "py_mul ref b = Inr hi"
  shows "metrics_dynamic_threshold T C ref tol = Inr (length (filter (counted lo hi) vs))"
  by (simp add: metrics_dynamic_threshold_def sbind_def assms(1,5,6,7,8)
      series_lt_numeric [OF assms(2,3)] series_gt_numeric [OF assms(2,4)]
      sum_bool_series_or_map counted_filter)

lemma arg_num_num_arg:
  "(case num_arg n of VInt i \<Rightarrow> Inr (PInt i) | VFloat f \<Rightarrow> Inr (PFloat f)
      | _ \<Rightarrow> Inl e) = (Inr n :: error + pynum)"
  by (cases n) (simp_all add: num_arg_def)

lemma threshold_dispatch:
  "metrics lib ''threshold'' [VTable T, VStr C, num_arg lo, num_arg hi] [] =
     sbind (metrics_threshold T C lo hi) (\<lambda>r. Inr (MCount r))"
  "rules lib fmt ''threshold'' [VTable T, VStr C, num_arg lo, num_arg hi] [] =
     rules_threshold fmt T C lo hi"
  "metrics lib ''dynamic_threshold'' [VTable T, VStr C, num_arg ref, num_arg tol] [] =
     sbind (metrics_dynamic_threshold T C ref tol) (\<lambda>r. Inr (MCount r))"
  "rules lib fmt ''dynamic_threshold'' [VTable T, VStr C, num_arg ref, num_arg tol] [] =
     rules_dynamic_threshold T C ref tol"
  by (simp_all add: dispatch_defs call_metrics_threshold_def call_rules_threshold_def
      call_metrics_dynamic_threshold_def call_rules_dynamic_threshold_def
      bind_args_def sbind_def arg_table_def arg_str_def arg_num_def arg_num_num_arg)

text \<open>The comparison of a numeric cell with a finite bound, in exact terms.\<close>

lemma cell_lt_sound:
  assumes "finite_bound b" and "num_value b = Some v" and "cell_lt c b = Inr True"
  shows "\<exists>u. cell_value c = Some u \<and> u < v"
proof -
  note tf = to_float_finite [OF assms(1,2)]
  show ?thesis
  proof (cases c)
    case (I64 i)
    show ?thesis
    proof (cases b)
      case (PInt j)
      then show ?thesis
        using assms I64 by (simp add: cell_value_def num_value_def)
    next
      case (PFloat f)
      then have "f = r64 v"
        using tf by (simp add: to_float_def)
      then show ?thesis
        using assms(3) I64 PFloat flt_r64_less [of "of_int i" v] by (simp add: cell_value_def)
    qed
  next
    case (Num x)
    then show ?thesis
      using assms(3) tf flt_r64_less [of x v] by (simp add: cell_value_def sbind_def)
  qed (use assms(3) tf in \<open>simp_all add: sbind_def\<close>)
qed

lemma cell_gt_sound:
  assumes "finite_bound b" and "num_value b = Some v" and "cell_gt c b = Inr True"
  shows "\<exists>u. cell_value c = Some u \<and> v < u"
proof -
  note tf = to_float_finite [OF assms(1,2)]
  show ?thesis
  proof (cases c)
    case (I64 i)
    show ?thesis
    proof (cases b)
      case (PInt j)
      then show ?thesis
        using assms I64 by (simp add: cell_value_def num_value_def)
    next
      case (PFloat f)
      then have "f = r64 v"
        using tf by (simp add: to_float_def)
      then show ?thesis
        using assms(3) I64 PFloat flt_r64_less [of v "of_int i"] by (simp add: cell_value_def)
    qed
  next
    case (Num x)
    then show ?thesis
      using assms(3) tf flt_r64_less [of v x] by (simp add: cell_value_def sbind_def)
  qed (use assms(3) tf in \<open>simp_all add: sbind_def\<close>)
qed

lemma counted_sound:
  assumes "finite_bound lo" and "num_value lo = Some l"
    and "finite_bound hi" and "num_value hi = Some h"
    and "counted lo hi c"
  shows "strictly_outside l h c"
  using assms(5) cell_lt_sound [OF assms(1,2), of c] cell_gt_sound [OF assms(3,4), of c]
  by (auto simp: counted_def strictly_outside_def)

lemma cell_lt_ge:
  assumes "finite_bound b" and "num_value b = Some v" and "cell_value c = Some u" and "v \<le> u"
  shows "cell_lt c b \<noteq> Inr True"
  using cell_lt_sound [OF assms(1,2), of c] assms(3,4) by auto

lemma cell_gt_le:
  assumes "finite_bound b" and "num_value b = Some v" and "cell_value c = Some u" and "u \<le> v"
  shows "cell_gt c b \<noteq> Inr True"
  using cell_gt_sound [OF assms(1,2), of c] assms(3,4) by auto

lemma inside_not_counted:
  assumes "finite_bound lo" and "num_value lo = Some l"
    and "finite_bound hi" and "num_value hi = Some h"
    and "cell_value c = Some u" and "l \<le> u" and "u \<le> h"
  shows "\<not> counted lo hi c"
  using cell_lt_ge [OF assms(1,2,5,6)] cell_gt_le [OF assms(3,4,5,7)]
  by (simp add: counted_def)

lemma cell_lt_exact:
  assumes "c = Null \<or> (\<exists>x. c = Num x \<and> is_f64 x) \<or> (\<exists>i. c = I64 i)"
    and "finite_bound b" and "num_value b = Some v" and "compared_exactly c b"
  shows "(cell_lt c b = Inr True) = (case cell_value c of Some u \<Rightarrow> u < v | None \<Rightarrow> False)"
proof -
  note tf = to_float_finite [OF assms(2,3)]
  show ?thesis
  proof (cases b)
    case (PInt j)
    then have v: "v = of_int j"
      using assms(3) by (simp add: num_value_def)
    show ?thesis
      using assms(1,4) tf PInt v
      by (auto simp: cell_value_def compared_exactly_def sbind_def is_f64_r64)
  next
    case (PFloat f)
    then have f: "f = Fin v" "is_f64 v"
      using assms(2,3) by (cases f; simp add: num_value_def finite_bound_def)+
    show ?thesis
      using assms(1,4) PFloat f
      by (auto simp: cell_value_def compared_exactly_def sbind_def is_f64_r64 to_float_def)
  qed
qed

lemma cell_gt_exact:
  assumes "c = Null \<or> (\<exists>x. c = Num x \<and> is_f64 x) \<or> (\<exists>i. c = I64 i)"
    and "finite_bound b" and "num_value b = Some v" and "compared_exactly c b"
  shows "(cell_gt c b = Inr True) = (case cell_value c of Some u \<Rightarrow> v < u | None \<Rightarrow> False)"
proof -
  note tf = to_float_finite [OF assms(2,3)]
  show ?thesis
  proof (cases b)
    case (PInt j)
    then have v: "v = of_int j"
      using assms(3) by (simp add: num_value_def)
    show ?thesis
      using assms(1,4) tf PInt v
      by (auto simp: cell_value_def compared_exactly_def sbind_def is_f64_r64)
  next
    case (PFloat f)
    then have f: "f = Fin v" "is_f64 v"
      using assms(2,3) by (cases f; simp add: num_value_def finite_bound_def)+
    show ?thesis
      using assms(1,4) PFloat f
      by (auto simp: cell_value_def compared_exactly_def sbind_def is_f64_r64 to_float_def)
  qed
qed

lemma counted_exact:
  assumes "c = Null \<or> (\<exists>x. c = Num x \<and> is_f64 x) \<or> (\<exists>i. c = I64 i)"
    and "finite_bound lo" and "num_value lo = Some l"
    and "finite_bound hi" and "num_value hi = Some h"
    and "compared_exactly c lo" and "compared_exactly c hi"
  shows "counted lo hi c = strictly_outside l h c"
  unfolding counted_def strictly_outside_def
    cell_lt_exact [OF assms(1,2,3,6)] cell_gt_exact [OF assms(1,4,5,7)]
  by (simp split: option.splits)

lemma finite_float_value:
  assumes "finite_bound (PFloat f)" and "num_value (PFloat f) = Some l"
  shows "f = Fin l"
  using assms by (cases f) (simp_all add: finite_bound_def num_value_def)

lemma fmul_Fin_r64:
  assumes "fmul (Fin y) (r64 x) = Fin l"
  shows "l = rnd (y * rnd x)"
proof (cases "r64 x")
  case (Fin z)
  then have "z = rnd x"
    by (simp add: r64_Fin_iff)
  then show ?thesis
    using assms Fin by (simp add: r64_Fin_iff)
qed (use assms in \<open>simp_all split: if_splits\<close>)

lemma to_float_PInt:
  assumes "to_float (PInt i) = Inr f"
  shows "f = Fin (rnd (of_int i))"
proof (cases "r64 (of_int i)")
  case (Fin y)
  then have "y = rnd (of_int i)"
    by (simp add: r64_Fin_iff)
  then show ?thesis
    using assms Fin by (simp add: to_float_def)
qed (use assms in \<open>simp_all add: to_float_def\<close>)

lemma finite_bound_rnd:
  assumes "finite_bound b" and "num_value b = Some v"
  shows "to_float b = Inr (Fin (rnd v))"
  using to_float_finite [OF assms] assms
  by (cases b) (auto simp: finite_bound_def num_value_def r64_Fin_iff is_f64_def split: pyfloat.splits)

lemma py_mul_float_value:
  assumes "finite_bound ref" and "num_value ref = Some r"
    and "py_mul ref (PFloat (r64 x)) = Inr lo"
    and "finite_bound lo" and "num_value lo = Some l"
  shows "l = rnd (rnd r * rnd x)"
proof -
  have "py_mul ref (PFloat (r64 x)) = Inr (PFloat (fmul (Fin (rnd r)) (r64 x)))"
    using finite_bound_rnd [OF assms(1,2)]
    by (cases ref) (simp_all add: py_mul_def py_arith_def sbind_def to_float_def)
  then have "lo = PFloat (fmul (Fin (rnd r)) (r64 x))"
    using assms(3) by simp
  then have "fmul (Fin (rnd r)) (r64 x) = Fin l"
    using finite_float_value assms(4,5) by metis
  then show ?thesis
    by (rule fmul_Fin_r64)
qed

lemma py_mul_int_value:
  assumes "finite_bound ref" and "num_value ref = Some r" and "\<not> is_pyint ref"
    and "py_mul ref (PInt k) = Inr lo"
    and "finite_bound lo" and "num_value lo = Some l"
  shows "l = rnd (rnd r * rnd (of_int k))"
proof -
  obtain f where ref: "ref = PFloat f"
    using assms(3) by (cases ref) (simp_all add: is_pyint_def)
  have f: "f = Fin r"
    using finite_float_value assms(1,2) ref by simp
  have rr: "rnd r = r"
    using assms(1) ref f by (simp add: finite_bound_def is_f64_def r64_Fin_iff)
  obtain g where g: "to_float (PInt k) = Inr g"
    using assms(4) ref by (cases "to_float (PInt k)") (simp_all add: py_mul_def py_arith_def sbind_def to_float_def)
  have gk: "g = Fin (rnd (of_int k))"
    using g by (rule to_float_PInt)
  have "py_mul ref (PInt k) = Inr (PFloat (r64 (r * rnd (of_int k))))"
    using g gk ref f by (simp add: py_mul_def py_arith_def sbind_def to_float_def)
  then have "lo = PFloat (r64 (r * rnd (of_int k)))"
    using assms(4) by simp
  then have "r64 (r * rnd (of_int k)) = Fin l"
    using finite_float_value assms(5,6) by metis
  then show ?thesis
    by (simp add: r64_Fin_iff rr)
qed

lemma py_sub_one:
  assumes "num_value tol = Some t" and "py_sub (PInt 1) tol = Inr a"
  shows "a = (case tol of PInt j \<Rightarrow> PInt (1 - j) | PFloat f \<Rightarrow> PFloat (r64 (1 - t)))"
proof (cases tol)
  case (PInt j)
  then show ?thesis
    using assms by (simp add: py_sub_def py_arith_def)
next
  case (PFloat f)
  then have "f = Fin t"
    using assms(1) by (cases f) (simp_all add: num_value_def)
  then show ?thesis
    using assms(2) PFloat by (simp add: py_sub_def py_arith_def sbind_def to_float_def fsub_def)
qed

lemma py_add_one:
  assumes "num_value tol = Some t" and "py_add (PInt 1) tol = Inr b"
  shows "b = (case tol of PInt j \<Rightarrow> PInt (1 + j) | PFloat f \<Rightarrow> PFloat (r64 (1 + t)))"
proof (cases tol)
  case (PInt j)
  then show ?thesis
    using assms by (simp add: py_add_def py_arith_def)
next
  case (PFloat f)
  then have "f = Fin t"
    using assms(1) by (cases f) (simp_all add: num_value_def)
  then show ?thesis
    using assms(2) PFloat by (simp add: py_add_def py_arith_def sbind_def to_float_def)
qed

lemma py_mul_ints:
  assumes "py_mul (PInt i) (PInt k) = Inr lo" and "num_value lo = Some l"
  shows "l = of_int i * of_int k"
  using assms by (auto simp: py_mul_def py_arith_def num_value_def)

text \<open>The value of a bound \<open>ref * (1 + s)\<close> that Python computes, \<open>1 + s\<close> first: exact on
  ints, rounded after each operation as soon as a float takes part.\<close>

lemma dynamic_bound_value:
  assumes "finite_bound ref" and "num_value ref = Some r" and "num_value tol = Some t"
    and "a = (case tol of PInt j \<Rightarrow> PInt (k j) | PFloat f \<Rightarrow> PFloat (r64 s))"
    and "\<And>j. tol = PInt j \<Longrightarrow> real_of_int (k j) = s"
    and "py_mul ref a = Inr lo"
    and "finite_bound lo" and "num_value lo = Some l"
  shows "l = (if is_pyint ref \<and> is_pyint tol then r * s else rnd (rnd r * rnd s))"
proof (cases tol)
  case (PInt j)
  note tol = this
  then have a: "a = PInt (k j)" and s: "real_of_int (k j) = s"
    using assms(4,5) by simp_all
  show ?thesis
  proof (cases "is_pyint ref")
    case True
    then obtain i where ref: "ref = PInt i"
      by (cases ref) (simp_all add: is_pyint_def)
    then have "r = of_int i"
      using assms(2) by (simp add: num_value_def)
    then show ?thesis
      using py_mul_ints [OF assms(6) [unfolded ref a] assms(8)] True tol s
      by (simp add: is_pyint_def)
  next
    case False
    then show ?thesis
      using py_mul_int_value [OF assms(1,2) False assms(6) [unfolded a] assms(7,8)] s by simp
  qed
next
  case (PFloat f)
  then have a: "a = PFloat (r64 s)"
    using assms(4) by simp
  show ?thesis
    using py_mul_float_value [OF assms(1,2) assms(6) [unfolded a] assms(7,8)] PFloat
    by (simp add: is_pyint_def)
qed

text \<open>The comparison of a numeric cell with a finite bound, in terms of rounded values.\<close>

lemma finite_bound_less:
  assumes "finite_bound b" and "num_value b = Some v"
  shows "\<bar>rnd v\<bar> < 2 ^ 1024"
proof -
  have "r64 v = Fin (rnd v)"
    using to_float_finite [OF assms] finite_bound_rnd [OF assms] by simp
  then show ?thesis
    by (simp add: r64_Fin_iff)
qed

lemma flt_r64_Fin:
  assumes "\<bar>y\<bar> < 2 ^ 1024"
  shows "flt (r64 u) (Fin y) = (rnd u < y)" and "flt (Fin y) (r64 u) = (y < rnd u)"
proof -
  have "flt (r64 u) (Fin y) = (rnd u < y) \<and> flt (Fin y) (r64 u) = (y < rnd u)"
  proof (cases "2 ^ 1024 \<le> rnd u")
    case True
    then have "r64 u = PInf"
      unfolding r64_def Let_def by (rule if_P)
    moreover have "y < rnd u"
      using True assms by linarith
    ultimately show ?thesis
      by simp
  next
    case False
    note big = this
    show ?thesis
    proof (cases "rnd u \<le> - (2 ^ 1024)")
      case True
      then have "r64 u = NInf"
        unfolding r64_def Let_def using big by (simp only: if_False if_True)
      moreover have "rnd u < y"
        using True assms by linarith
      ultimately show ?thesis
        by simp
    next
      case False
      then have "r64 u = Fin (rnd u)"
        unfolding r64_def Let_def using big by (simp only: if_False)
      then show ?thesis
        by simp
    qed
  qed
  then show "flt (r64 u) (Fin y) = (rnd u < y)" and "flt (Fin y) (r64 u) = (y < rnd u)"
    by simp_all
qed

lemma cell_lt_rounded:
  assumes "c = Null \<or> (\<exists>x. c = Num x \<and> is_f64 x) \<or> (\<exists>i. c = I64 i)"
    and "finite_bound b" and "num_value b = Some v" and "cell_value c = Some u"
  shows "(cell_lt c b = Inr True) = (if compared_as_ints c b then u < v else rnd u < rnd v)"
proof -
  note tf = finite_bound_rnd [OF assms(2,3)]
  note fl = flt_r64_Fin [OF finite_bound_less [OF assms(2,3)]]
  show ?thesis
  proof (cases c)
    case (I64 i)
    then have u: "u = of_int i"
      using assms(4) by (simp add: cell_value_def)
    show ?thesis
    proof (cases b)
      case (PInt j)
      then have "v = of_int j"
        using assms(3) by (simp add: num_value_def)
      then show ?thesis
        using PInt I64 u by (simp add: compared_as_ints_def)
    next
      case (PFloat f)
      then have "f = Fin (rnd v)"
        using tf by (simp add: to_float_def)
      then show ?thesis
        using fl I64 PFloat u by (simp add: compared_as_ints_def)
    qed
  next
    case (Num x)
    then have "u = x"
      using assms(4) by (simp add: cell_value_def)
    then show ?thesis
      using fl tf Num by (simp add: compared_as_ints_def sbind_def)
  qed (use assms(1,4) in \<open>simp_all add: cell_value_def\<close>)
qed

lemma cell_gt_rounded:
  assumes "c = Null \<or> (\<exists>x. c = Num x \<and> is_f64 x) \<or> (\<exists>i. c = I64 i)"
    and "finite_bound b" and "num_value b = Some v" and "cell_value c = Some u"
  shows "(cell_gt c b = Inr True) = (if compared_as_ints c b then v < u else rnd v < rnd u)"
proof -
  note tf = finite_bound_rnd [OF assms(2,3)]
  note fl = flt_r64_Fin [OF finite_bound_less [OF assms(2,3)]]
  show ?thesis
  proof (cases c)
    case (I64 i)
    then have u: "u = of_int i"
      using assms(4) by (simp add: cell_value_def)
    show ?thesis
    proof (cases b)
      case (PInt j)
      then have "v = of_int j"
        using assms(3) by (simp add: num_value_def)
      then show ?thesis
        using PInt I64 u by (simp add: compared_as_ints_def)
    next
      case (PFloat f)
      then have "f = Fin (rnd v)"
        using tf by (simp add: to_float_def)
      then show ?thesis
        using fl I64 PFloat u by (simp add: compared_as_ints_def)
    qed
  next
    case (Num x)
    then have "u = x"
      using assms(4) by (simp add: cell_value_def)
    then show ?thesis
      using fl tf Num by (simp add: compared_as_ints_def sbind_def)
  qed (use assms(1,4) in \<open>simp_all add: cell_value_def\<close>)
qed

lemma counted_rounded:
  assumes "c = Null \<or> (\<exists>x. c = Num x \<and> is_f64 x) \<or> (\<exists>i. c = I64 i)"
    and "finite_bound lo" and "num_value lo = Some l"
    and "finite_bound hi" and "num_value hi = Some h"
  shows "case cell_value c of
           None \<Rightarrow> \<not> counted lo hi c
         | Some u \<Rightarrow>
             counted lo hi c =
               ((if compared_as_ints c lo then u < l else rnd u < rnd l)
                \<or> (if compared_as_ints c hi then h < u else rnd h < rnd u))"
proof (cases "cell_value c")
  case None
  then have "c = Null"
    using assms(1) by (auto simp: cell_value_def)
  then show ?thesis
    using None finite_bound_rnd [OF assms(2,3)] finite_bound_rnd [OF assms(4,5)]
    by (simp add: counted_def sbind_def)
next
  case (Some u)
  show ?thesis
    using cell_lt_rounded [OF assms(1,2,3) Some] cell_gt_rounded [OF assms(1,4,5) Some] Some
    by (simp add: counted_def)
qed

text \<open>
  Claim C3, refuted as it stands. The bounds of the dynamic threshold are computed in
  Python arithmetic, which rounds to float64 as soon as a float takes part, and an int64
  cell compared with a float is converted too. For the reference value \<open>3 * 2 ^ 53\<close> and
  the tolerance \<open>1 / 2 ^ 53\<close> the sum \<open>1 + tolerance\<close> rounds to 1 and the upper bound is
  the reference value; the cell \<open>3 * 2 ^ 53 + 3\<close>, which is exactly
  \<open>reference_value * (1 + tolerance)\<close>, is converted to \<open>3 * 2 ^ 53 + 4\<close> and counted. Nor is
  every value strictly above a bound counted: of the int64 values \<open>2 ^ 53\<close>, \<open>2 ^ 53 + 1\<close>,
  \<open>2 ^ 53 + 2\<close> two are above the float \<open>2 ^ 53\<close>, and the threshold metric counts one.
\<close>

theorem dynamic_threshold_counterexample:
  "getitem large_count ''count'' = Inr [I64 27021597764222979]
   \<and> r64 (1 / 2 ^ 53) = Fin (1 / 2 ^ 53)
   \<and> (27021597764222979 :: real) = 27021597764222976 * (1 + 1 / 2 ^ 53)
   \<and> metrics seq_lib ''dynamic_threshold''
        [VTable large_count, VStr ''count'', VInt 27021597764222976, VFloat (Fin (1 / 2 ^ 53))] [] =
       Inr (MCount 1)
   \<and> rules seq_lib blank_fmt ''dynamic_threshold''
        [VTable large_count, VStr ''count'', VInt 27021597764222976, VFloat (Fin (1 / 2 ^ 53))] [] =
       Inr (False, ''1 values exceed dynamic thresholds.'')
   \<and> getitem large_values ''value'' =
       Inr [I64 9007199254740992, I64 9007199254740993, I64 9007199254740994]
   \<and> (9007199254740992 :: real) < 9007199254740993
   \<and> (9007199254740992 :: real) < 9007199254740994
   \<and> metrics seq_lib ''threshold''
        [VTable large_values, VStr ''value'', VFloat (Fin 0), VFloat (Fin 9007199254740992)] [] =
       Inr (MCount 1)"
proof -
  have g: "getitem large_count ''count'' = Inr [I64 27021597764222979]"
    by (simp add: getitem_def large_count_def)
  have e: "(27021597764222979 :: real) = 27021597764222976 * (1 + 1 / 2 ^ 53)"
    by simp
  have s1: "py_sub (PInt 1) (PFloat (Fin (1 / 2 ^ 53))) = Inr (PFloat (Fin (1 - 1 / 2 ^ 53)))"
    using r64_below_one by (simp add: py_sub_def py_arith_def sbind_def to_float_def fsub_def)
  have "(27021597764222976 :: real) * (1 - 1 / 2 ^ 53) = 27021597764222973"
    by simp
  then have s2: "py_mul (PInt 27021597764222976) (PFloat (Fin (1 - 1 / 2 ^ 53))) =
      Inr (PFloat (Fin 27021597764222972))"
    by (simp add: py_mul_def py_arith_def sbind_def to_float_def r64_large_count)
  have s3: "py_add (PInt 1) (PFloat (Fin (1 / 2 ^ 53))) = Inr (PFloat (Fin 1))"
    using r64_above_one by (simp add: py_add_def py_arith_def sbind_def to_float_def)
  have s4: "py_mul (PInt 27021597764222976) (PFloat (Fin 1)) = Inr (PFloat (Fin 27021597764222976))"
    by (simp add: py_mul_def py_arith_def sbind_def to_float_def r64_large_count)
  have m: "metrics_dynamic_threshold large_count ''count'' (PInt 27021597764222976)
      (PFloat (Fin (1 / 2 ^ 53))) = Inr 1"
    using s1 s2 s3 s4
    by (simp add: metrics_dynamic_threshold_def g sbind_def series_lt_def
        series_gt_def series_or_def sum_bool_def r64_large_count)
  have d: "metrics seq_lib ''dynamic_threshold''
        [VTable large_count, VStr ''count'', VInt 27021597764222976, VFloat (Fin (1 / 2 ^ 53))] [] =
       Inr (MCount 1)"
    using threshold_dispatch(3) [of seq_lib large_count "''count''" "PInt 27021597764222976"
        "PFloat (Fin (1 / 2 ^ 53))"] m
    by (simp add: num_arg_def sbind_def)
  have r: "rules seq_lib blank_fmt ''dynamic_threshold''
        [VTable large_count, VStr ''count'', VInt 27021597764222976, VFloat (Fin (1 / 2 ^ 53))] [] =
       Inr (False, ''1 values exceed dynamic thresholds.'')"
    using threshold_dispatch(4) [of seq_lib blank_fmt large_count "''count''" "PInt 27021597764222976"
        "PFloat (Fin (1 / 2 ^ 53))"] m
    by (simp add: num_arg_def rules_dynamic_threshold_def digit_char_def)
  have g2: "getitem large_values ''value'' =
       Inr [I64 9007199254740992, I64 9007199254740993, I64 9007199254740994]"
    by (simp add: getitem_def large_values_def)
  have t: "metrics seq_lib ''threshold''
        [VTable large_values, VStr ''value'', VFloat (Fin 0), VFloat (Fin 9007199254740992)] [] =
       Inr (MCount 1)"
    using threshold_dispatch(1) [of seq_lib large_values "''value''" "PFloat (Fin 0)"
        "PFloat (Fin 9007199254740992)"]
    by (simp add: num_arg_def sbind_def metrics_threshold_def g2 outside_count_def series_lt_def
        series_gt_def series_or_def sum_bool_def r64_large_values)
  show ?thesis
    using g e d r r64_tiny g2 t by simp
qed

text \<open>
  Claim C3, amended. For a table \<open>T\<close> whose column \<open>C\<close> holds int64 numbers, float64
  numbers and missing values, and for finite bounds \<open>lo\<close> and \<open>hi\<close> of values \<open>l\<close> and \<open>h\<close>:
  the threshold metric is the number of cells for which numpy finds \<open>cell < lo\<close> or
  \<open>cell > hi\<close>, and the rule passes iff that number is 0. An int64 cell and an int bound
  are compared as they are; in every other case the cell and the bound are compared
  after rounding to float64; a missing value is never counted. Every counted cell is a number
  strictly below \<open>l\<close> or strictly above \<open>h\<close>; when \<open>l \<le> h\<close>, a cell equal to a bound is
  never counted; where a cell is compared without rounding, it is counted iff it is
  strictly outside. The dynamic threshold is the threshold for the bounds that Python
  computes from \<open>ref\<close> and \<open>tol\<close>: the exact products \<open>ref * (1 - tol)\<close> and
  \<open>ref * (1 + tol)\<close> when both are ints, and otherwise the float64 numbers
  \<open>rnd (rnd ref * rnd (1 - tol))\<close> and \<open>rnd (rnd ref * rnd (1 + tol))\<close>, rounded after each
  operation; its rule passes iff its count is 0.
\<close>

theorem threshold_strict_bounds:
  assumes "getitem T C = Inr vs" and "numeric_column vs"
    and "finite_bound lo" and "num_value lo = Some l"
    and "finite_bound hi" and "num_value hi = Some h"
  shows "metrics lib ''threshold'' [VTable T, VStr C, num_arg lo, num_arg hi] [] =
           Inr (MCount (length (filter (counted lo hi) vs)))
         \<and> rules lib fmt ''threshold'' [VTable T, VStr C, num_arg lo, num_arg hi] [] =
           Inr (length (filter (counted lo hi) vs) = 0,
                str_nat (length (filter (counted lo hi) vs))
                  @ '' values are outside the range ['' @ str_pynum fmt lo @ '', ''
                  @ str_pynum fmt hi @ ''].'')
         \<and> (\<forall>c\<in>set vs. case cell_value c of
                None \<Rightarrow> \<not> counted lo hi c
              | Some u \<Rightarrow>
                  counted lo hi c =
                    ((if compared_as_ints c lo then u < l else rnd u < rnd l)
                     \<or> (if compared_as_ints c hi then h < u else rnd h < rnd u)))
         \<and> (\<forall>c\<in>set vs. counted lo hi c \<longrightarrow> strictly_outside l h c)
         \<and> (l \<le> h \<longrightarrow>
              (\<forall>c\<in>set vs. cell_value c = Some l \<or> cell_value c = Some h \<longrightarrow> \<not> counted lo hi c))
         \<and> (\<forall>c\<in>set vs. compared_exactly c lo \<and> compared_exactly c hi \<longrightarrow>
              counted lo hi c = strictly_outside l h c)
         \<and> (finite_bound ref \<and> num_value ref = Some r \<and> num_value tol = Some t
              \<and> py_sub (PInt 1) tol = Inr a \<and> py_mul ref a = Inr lo
              \<and> py_add (PInt 1) tol = Inr b \<and> py_mul ref b = Inr hi \<longrightarrow>
              metrics lib ''dynamic_threshold'' [VTable T, VStr C, num_arg ref, num_arg tol] [] =
                Inr (MCount (length (filter (counted lo hi) vs)))
              \<and> rules lib fmt ''dynamic_threshold'' [VTable T, VStr C, num_arg ref, num_arg tol] [] =
                Inr (length (filter (counted lo hi) vs) = 0,
                     str_nat (length (filter (counted lo hi) vs))
                       @ '' values exceed dynamic thresholds.'')
              \<and> l = (if is_pyint ref \<and> is_pyint tol then r * (1 - t)
                     else rnd (rnd r * rnd (1 - t)))
              \<and> h = (if is_pyint ref \<and> is_pyint tol then r * (1 + t)
                     else rnd (rnd r * rnd (1 + t))))"
proof -
  let ?n = "length (filter (counted lo hi) vs)"
  note tl = to_float_finite [OF assms(3,4)]
  note th = to_float_finite [OF assms(5,6)]
  have s: "sbind (Inr n) (\<lambda>r. Inr (MCount r)) = (Inr (MCount n) :: error + metric_result)" for n
    by (simp add: sbind_def)
  have m: "metrics_threshold T C lo hi = Inr ?n"
    by (simp add: metrics_threshold_def assms(1) outside_count_numeric [OF assms(2) tl th])
  have c1: "metrics lib ''threshold'' [VTable T, VStr C, num_arg lo, num_arg hi] [] =
      Inr (MCount ?n)"
    by (simp only: threshold_dispatch m s)
  have c2: "rules lib fmt ''threshold'' [VTable T, VStr C, num_arg lo, num_arg hi] [] =
      Inr (?n = 0,
           str_nat ?n @ '' values are outside the range ['' @ str_pynum fmt lo @ '', ''
             @ str_pynum fmt hi @ ''].'')"
    by (simp only: threshold_dispatch rules_threshold_def m sum.case)
  have c0: "\<forall>c\<in>set vs. case cell_value c of
        None \<Rightarrow> \<not> counted lo hi c
      | Some u \<Rightarrow>
          counted lo hi c =
            ((if compared_as_ints c lo then u < l else rnd u < rnd l)
             \<or> (if compared_as_ints c hi then h < u else rnd h < rnd u))"
    using counted_rounded [OF numeric_column_mem [OF assms(2)] assms(3,4,5,6)] by blast
  have c3: "\<forall>c\<in>set vs. counted lo hi c \<longrightarrow> strictly_outside l h c"
    using counted_sound [OF assms(3,4,5,6)] by blast
  have c4: "l \<le> h \<longrightarrow>
      (\<forall>c\<in>set vs. cell_value c = Some l \<or> cell_value c = Some h \<longrightarrow> \<not> counted lo hi c)"
    using inside_not_counted [OF assms(3,4,5,6)] by (metis order_refl)
  have c5: "\<forall>c\<in>set vs. compared_exactly c lo \<and> compared_exactly c hi \<longrightarrow>
      counted lo hi c = strictly_outside l h c"
    using counted_exact [OF numeric_column_mem [OF assms(2)] assms(3,4,5,6)] by blast
  have c6: "metrics lib ''dynamic_threshold'' [VTable T, VStr C, num_arg ref, num_arg tol] [] =
        Inr (MCount ?n)
      \<and> rules lib fmt ''dynamic_threshold'' [VTable T, VStr C, num_arg ref, num_arg tol] [] =
        Inr (?n = 0, str_nat ?n @ '' values exceed dynamic thresholds.'')
      \<and> l = (if is_pyint ref \<and> is_pyint tol then r * (1 - t) else rnd (rnd r * rnd (1 - t)))
      \<and> h = (if is_pyint ref \<and> is_pyint tol then r * (1 + t) else rnd (rnd r * rnd (1 + t)))"
    if fr: "finite_bound ref" and nr: "num_value ref = Some r" and nt: "num_value tol = Some t"
      and pa: "py_sub (PInt 1) tol = Inr a" and pl: "py_mul ref a = Inr lo"
      and pb: "py_add (PInt 1) tol = Inr b" and ph: "py_mul ref b = Inr hi"
  proof -
    have dm: "metrics_dynamic_threshold T C ref tol = Inr ?n"
      by (rule dynamic_threshold_bounds [OF assms(1,2) tl th pa pl pb ph])
    have d1: "metrics lib ''dynamic_threshold'' [VTable T, VStr C, num_arg ref, num_arg tol] [] =
        Inr (MCount ?n)"
      by (simp only: threshold_dispatch dm s)
    have d2: "rules lib fmt ''dynamic_threshold'' [VTable T, VStr C, num_arg ref, num_arg tol] [] =
        Inr (?n = 0, str_nat ?n @ '' values exceed dynamic thresholds.'')"
      by (simp only: threshold_dispatch rules_dynamic_threshold_def dm sum.case)
    have d3: "l = (if is_pyint ref \<and> is_pyint tol then r * (1 - t) else rnd (rnd r * rnd (1 - t)))"
      by (rule dynamic_bound_value [OF fr nr nt py_sub_one [OF nt pa] _ pl assms(3,4)])
        (use nt in \<open>simp add: num_value_def\<close>)
    have d4: "h = (if is_pyint ref \<and> is_pyint tol then r * (1 + t) else rnd (rnd r * rnd (1 + t)))"
      by (rule dynamic_bound_value [OF fr nr nt py_add_one [OF nt pb] _ ph assms(5,6)])
        (use nt in \<open>simp add: num_value_def\<close>)
    show ?thesis
      using d1 d2 d3 d4 by blast
  qed
  show ?thesis
    using c0 c1 c2 c3 c4 c5 c6 by blast
qed

theorem threshold_strict_bounds_witness:
  "getitem sample_data ''value'' = Inr [I64 10, I64 20, I64 30, I64 40, I64 50]
   \<and> numeric_column [I64 10, I64 20, I64 30, I64 40, I64 50]
   \<and> finite_bound (PFloat (Fin 15)) \<and> num_value (PFloat (Fin 15)) = Some 15
   \<and> finite_bound (PFloat (Fin 45)) \<and> num_value (PFloat (Fin 45)) = Some 45
   \<and> finite_bound (PInt 30) \<and> num_value (PInt 30) = Some 30
   \<and> num_value (PFloat (Fin (1 / 2))) = Some (1 / 2)
   \<and> py_sub (PInt 1) (PFloat (Fin (1 / 2))) = Inr (PFloat (Fin (1 / 2)))
   \<and> py_mul (PInt 30) (PFloat (Fin (1 / 2))) = Inr (PFloat (Fin 15))
   \<and> py_add (PInt 1) (PFloat (Fin (1 / 2))) = Inr (PFloat (Fin (3 / 2)))
   \<and> py_mul (PInt 30) (PFloat (Fin (3 / 2))) = Inr (PFloat (Fin 45))
   \<and> metrics seq_lib ''threshold'' [VTable sample_data, VStr ''value'', VFloat (Fin 15), VFloat (Fin 45)] [] =
       Inr (MCount 2)
   \<and> rules seq_lib blank_fmt ''threshold''
        [VTable sample_data, VStr ''value'', VFloat (Fin 15), VFloat (Fin 45)] [] =
       Inr (False, ''2 values are outside the range [15.0, 45.0].'')
   \<and> metrics seq_lib ''dynamic_threshold'' [VTable sample_data, VStr ''value'', VInt 30, VFloat (Fin (1 / 2))] [] =
       Inr (MCount 2)
   \<and> rules seq_lib blank_fmt ''dynamic_threshold''
        [VTable sample_data, VStr ''value'', VInt 30, VFloat (Fin (1 / 2))] [] =
       Inr (False, ''2 values exceed dynamic thresholds.'')
   \<and> (15 :: real) = rnd (rnd 30 * rnd (1 - 1 / 2))
   \<and> (45 :: real) = rnd (rnd 30 * rnd (1 + 1 / 2))
   \<and> metrics seq_lib ''threshold'' [VTable sample_data, VStr ''value'', VInt 10, VInt 50] [] =
       Inr (MCount 0)
   \<and> rules seq_lib blank_fmt ''threshold'' [VTable sample_data, VStr ''value'', VInt 10, VInt 50] [] =
       Inr (True, ''0 values are outside the range [10, 50].'')
   \<and> \<not> counted (PInt 10) (PInt 50) (I64 10) \<and> \<not> counted (PInt 10) (PInt 50) (I64 50)"
proof -
  have g: "getitem sample_data ''value'' = Inr [I64 10, I64 20, I64 30, I64 40, I64 50]"
    by (simp add: getitem_def sample_data_def)
  have n: "numeric_column [I64 10, I64 20, I64 30, I64 40, I64 50]"
    by (simp add: numeric_column_def)
  have f15: "finite_bound (PFloat (Fin 15))" and f45: "finite_bound (PFloat (Fin 45))"
    and f30: "finite_bound (PInt 30)" and f10: "finite_bound (PInt 10)"
    and f50: "finite_bound (PInt 50)"
    by (simp_all add: finite_bound_def is_f64_def)
  have v15: "num_value (PFloat (Fin 15)) = Some 15" and v45: "num_value (PFloat (Fin 45)) = Some 45"
    and v30: "num_value (PInt 30) = Some 30" and vt: "num_value (PFloat (Fin (1 / 2))) = Some (1 / 2)"
    and v10: "num_value (PInt 10) = Some 10" and v50: "num_value (PInt 50) = Some 50"
    by (simp_all add: num_value_def)
  have a: "py_sub (PInt 1) (PFloat (Fin (1 / 2))) = Inr (PFloat (Fin (1 / 2)))"
    by (simp add: py_sub_def py_arith_def sbind_def to_float_def fsub_def r64_half)
  have l: "py_mul (PInt 30) (PFloat (Fin (1 / 2))) = Inr (PFloat (Fin 15))"
    by (simp add: py_mul_def py_arith_def sbind_def to_float_def)
  have "(1 + 1 / 2 :: real) = 3 / 2"
    by simp
  then have b: "py_add (PInt 1) (PFloat (Fin (1 / 2))) = Inr (PFloat (Fin (3 / 2)))"
    by (simp add: py_add_def py_arith_def sbind_def to_float_def r64_three_halves)
  have h: "py_mul (PInt 30) (PFloat (Fin (3 / 2))) = Inr (PFloat (Fin 45))"
    by (simp add: py_mul_def py_arith_def sbind_def to_float_def)
  show ?thesis
    using g n f15 v15 f45 v45 f30 v30 vt a l b h
      threshold_strict_bounds [OF g n f15 v15 f45 v45,
        of seq_lib blank_fmt "PInt 30" 30 "PFloat (Fin (1 / 2))" "1 / 2"
          "PFloat (Fin (1 / 2))" "PFloat (Fin (3 / 2))"]
      threshold_strict_bounds [OF g n f10 v10 f50 v50,
        of seq_lib blank_fmt "PInt 30" 30 "PFloat (Fin (1 / 2))" "1 / 2"
          "PFloat (Fin (1 / 2))" "PFloat (Fin (3 / 2))"]
    by (simp add: counted_def num_arg_def is_pyint_def str_pynum_def str_int_def digit_char_def
        blank_fmt_def whole_float_text_def)
qed

section \<open>Schema and column name consistency\<close>

lemma set_difference_dispatch:
  "metrics lib ''schema_consistency'' [VTable T, VStrs L] [] =
     Inr (MSet (metrics_schema_consistency T L))"
  "metrics lib ''column_name_consistency'' [VTable T, VStrs L] [] =
     Inr (MSet (metrics_column_name_consistency T L))"
  "rules lib fmt ''schema_consistency'' [VTable T, VStrs L] [] = Inr (rules_schema_consistency fmt T L)"
  "rules lib fmt ''column_name_consistency'' [VTable T, VStrs L] [] =
     Inr (rules_column_name_consistency fmt T L)"
  by (simp_all add: dispatch_defs call_metrics_schema_consistency_def
      call_metrics_column_name_consistency_def call_rules_schema_consistency_def
      call_rules_column_name_consistency_def bind_args_def sbind_def arg_table_def arg_strs_def)

lemma missing_columns_eq:
  "set L - set (df_columns T) = {n \<in> set L. n \<notin> set (df_columns T)}"
  by auto

lemma card_missing_zero:
  "(card {n \<in> set L. n \<notin> S} = 0) = ({n \<in> set L. n \<notin> S} = {})"
  by simp

lemma df_columns_add_column: "set (df_columns (add_column c vs T)) = insert c (set (df_columns T))"
  by (simp add: df_columns_def add_column_def)

lemma df_columns_drop_column: "set (df_columns (drop_column c T)) = set (df_columns T) - {c}"
  by (auto simp: df_columns_def drop_column_def)

text \<open>
  Claim C4. For every table \<open>T\<close> and list of names \<open>L\<close>, the schema and the column name
  metrics are exactly the set of names of \<open>L\<close> that are not columns of \<open>T\<close>, and the
  rules pass iff that set is empty. The checks are directional: a further column of
  \<open>T\<close> whose name is not in \<open>L\<close> leaves the result as it is, and taking away from
  \<open>T\<close> a column whose name is in \<open>L\<close> puts that name into the result.
\<close>

theorem set_difference_directional:
  "metrics lib ''schema_consistency'' [VTable T, VStrs L] [] =
     Inr (MSet {n \<in> set L. n \<notin> set (df_columns T)})
   \<and> metrics lib ''column_name_consistency'' [VTable T, VStrs L] [] =
     Inr (MSet {n \<in> set L. n \<notin> set (df_columns T)})
   \<and> rules lib fmt ''schema_consistency'' [VTable T, VStrs L] [] =
     Inr ({n \<in> set L. n \<notin> set (df_columns T)} = {},
          ''Missing columns: '' @ str_set fmt {n \<in> set L. n \<notin> set (df_columns T)})
   \<and> rules lib fmt ''column_name_consistency'' [VTable T, VStrs L] [] =
     Inr ({n \<in> set L. n \<notin> set (df_columns T)} = {},
          ''Inconsistent column names: '' @ str_set fmt {n \<in> set L. n \<notin> set (df_columns T)})
   \<and> (c \<notin> set L \<longrightarrow>
        metrics lib ''schema_consistency'' [VTable (add_column c vs T), VStrs L] [] =
          metrics lib ''schema_consistency'' [VTable T, VStrs L] []
        \<and> metrics lib ''column_name_consistency'' [VTable (add_column c vs T), VStrs L] [] =
          metrics lib ''column_name_consistency'' [VTable T, VStrs L] [])
   \<and> (c \<in> set L \<longrightarrow>
        metrics lib ''schema_consistency'' [VTable (drop_column c T), VStrs L] [] =
          Inr (MSet (insert c {n \<in> set L. n \<notin> set (df_columns T)}))
        \<and> metrics lib ''column_name_consistency'' [VTable (drop_column c T), VStrs L] [] =
          Inr (MSet (insert c {n \<in> set L. n \<notin> set (df_columns T)})))"
proof -
  have m1: "metrics_schema_consistency T' L = {n \<in> set L. n \<notin> set (df_columns T')}" for T'
    unfolding metrics_schema_consistency_def by (rule missing_columns_eq)
  have m2: "metrics_column_name_consistency T' L = {n \<in> set L. n \<notin> set (df_columns T')}" for T'
    unfolding metrics_column_name_consistency_def by (rule missing_columns_eq)
  have r1: "rules_schema_consistency fmt T L =
      ({n \<in> set L. n \<notin> set (df_columns T)} = {},
       ''Missing columns: '' @ str_set fmt {n \<in> set L. n \<notin> set (df_columns T)})"
    by (simp only: rules_schema_consistency_def m1 Let_def card_missing_zero)
  have r2: "rules_column_name_consistency fmt T L =
      ({n \<in> set L. n \<notin> set (df_columns T)} = {},
       ''Inconsistent column names: '' @ str_set fmt {n \<in> set L. n \<notin> set (df_columns T)})"
    by (simp only: rules_column_name_consistency_def m2 Let_def card_missing_zero)
  have add: "c \<notin> set L \<Longrightarrow>
      {n \<in> set L. n \<notin> set (df_columns (add_column c vs T))} = {n \<in> set L. n \<notin> set (df_columns T)}"
    by (auto simp: df_columns_add_column)
  have del: "c \<in> set L \<Longrightarrow>
      {n \<in> set L. n \<notin> set (df_columns (drop_column c T))} =
        insert c {n \<in> set L. n \<notin> set (df_columns T)}"
    by (auto simp: df_columns_drop_column)
  show ?thesis
    by (simp only: set_difference_dispatch m1 m2 r1 r2) (use add del in simp)
qed

theorem set_difference_directional_witness:
  "''extra'' \<notin> set [''id'', ''name'', ''value'', ''timestamp'']
   \<and> ''name'' \<in> set [''id'', ''name'', ''value'', ''timestamp'']
   \<and> metrics seq_lib ''schema_consistency''
        [VTable sample_data, VStrs [''id'', ''name'', ''value'', ''timestamp'']] [] = Inr (MSet {})
   \<and> metrics seq_lib ''schema_consistency''
        [VTable (add_column ''extra'' [Null, Null, Null, Null, Null] sample_data),
         VStrs [''id'', ''name'', ''value'', ''timestamp'']] [] = Inr (MSet {})
   \<and> metrics seq_lib ''schema_consistency''
        [VTable (drop_column ''name'' sample_data),
         VStrs [''id'', ''name'', ''value'', ''timestamp'']] [] = Inr (MSet {''name''})
   \<and> metrics seq_lib ''column_name_consistency''
        [VTable (drop_column ''name'' sample_data),
         VStrs [''id'', ''name'', ''value'', ''timestamp'']] [] = Inr (MSet {''name''})"
proof -
  have a: "''extra'' \<notin> set [''id'', ''name'', ''value'', ''timestamp'']"
    by simp
  have b: "''name'' \<in> set [''id'', ''name'', ''value'', ''timestamp'']"
    by simp
  have e: "{n \<in> set [''id'', ''name'', ''value'', ''timestamp'']. n \<notin> set (df_columns sample_data)} = {}"
    by (auto simp: df_columns_def sample_data_def)
  note t1 = set_difference_directional [of seq_lib sample_data "[''id'', ''name'', ''value'', ''timestamp'']"
        blank_fmt "''extra''" "[Null, Null, Null, Null, Null]", unfolded e]
  note t2 = set_difference_directional [of seq_lib sample_data "[''id'', ''name'', ''value'', ''timestamp'']"
        blank_fmt "''name''" "[]", unfolded e]
  show ?thesis
    using a b t1 t2 by simp
qed

section \<open>Anomalies in the number of records\<close>



lemma record_anomalies_dispatch:
  "metrics lib ''record_anomalies'' [VNums H, VInt p] [] =
     sbind (metrics_record_anomalies lib H p) (\<lambda>r. Inr (MPair (fst r) (snd r)))"
  "metrics lib ''record_anomalies'' [VNums H] [] =
     sbind (metrics_record_anomalies lib H 30) (\<lambda>r. Inr (MPair (fst r) (snd r)))"
  "metrics lib ''record_anomalies'' [VNums H] [(''lookback_period'', VInt p)] =
     sbind (metrics_record_anomalies lib H p) (\<lambda>r. Inr (MPair (fst r) (snd r)))"
  "rules lib fmt ''record_anomalies'' [VNums H, num_arg c, VInt p] [] =
     rules_record_anomalies lib fmt H c p"
  by (simp_all add: dispatch_defs call_metrics_record_anomalies_def
      call_rules_record_anomalies_def bind_args_def sbind_def arg_nums_def arg_int_def
      arg_num_def arg_num_num_arg)

lemma r64_not_NaN: "r64 x \<noteq> NaN"
  by (simp add: r64_def Let_def)


lemma fle_r64_refl: "fle (r64 x) (r64 x)"
  by (simp add: fle_refl_iff r64_not_NaN)



lemmas seq_defs =
  seq_lib_def seq_mean_def seq_std_def seq_var_def seq_sum_def seq_sqdev_def num_float_def
  fsub_def Let_def



lemma small_window_stats:
  "np_mean seq_lib [PInt 2, PInt 2, PInt 6, PInt 6] = Inr (Fin 4)"
  "np_std seq_lib [PInt 2, PInt 2, PInt 6, PInt 6] = Inr (Fin 2)"
proof -
  show "np_mean seq_lib [PInt 2, PInt 2, PInt 6, PInt 6] = Inr (Fin 4)"
    by (simp add: seq_defs)
  have "sqrt 4 = 2"
    using real_sqrt_abs [of 2] by simp
  then show "np_std seq_lib [PInt 2, PInt 2, PInt 6, PInt 6] = Inr (Fin 2)"
    by (simp add: seq_defs)
qed




section \<open>The window of the anomaly check\<close>




section \<open>Variance\<close>





lemma variance_dispatch:
  "metrics lib ''variance'' [VTable T, VStr C] [] =
     sbind (metrics_variance lib T C) (\<lambda>r. Inr (MFloat r))"
  "rules lib fmt ''variance'' [VTable T, VStr C, num_arg m] [] = rules_variance lib fmt T C m"
  "rules lib fmt ''variance'' [VTable T, VStr C] [(''max_variance'', num_arg m)] =
     rules_variance lib fmt T C m"
  "rules lib fmt ''variance'' [VTable T, VStr C] [] =
     Inl (TypeError (MissingArguments [''max_variance'']))"
  by (simp_all add: dispatch_defs call_metrics_variance_def call_rules_variance_def
      bind_args_def sbind_def arg_table_def arg_str_def arg_num_def arg_num_num_arg)




lemma readings_var: "series_var seq_lib [Num 1, Null, Num 3, Num 5] = Inr (Fin 4)"
  by (simp add: seq_defs)





section \<open>Non-null\<close>

lemma sum_bool_isnull: "sum_bool (map isnull vs) = count_list vs Null"
  by (induction vs) (auto simp: sum_bool_def isnull_def)

lemma getitem_present:
  assumes "c \<in> set (df_columns T)"
  obtains vs where "getitem T c = Inr vs" and "null_count T c = count_list vs Null"
proof -
  from assms have "map_of (tcols T) c \<noteq> None"
    by (simp add: df_columns_def map_of_eq_None_iff)
  then obtain vs where "map_of (tcols T) c = Some vs"
    by blast
  then have "getitem T c = Inr vs" and "null_count T c = count_list vs Null"
    by (simp_all add: getitem_def null_count_def)
  then show ?thesis ..
qed

lemma null_counts_from_present:
  assumes "set L \<subseteq> set (df_columns T)"
  shows "\<exists>d. null_counts_from T L acc = Inr d
           \<and> map_of d = (\<lambda>c. if c \<in> set L then Some (null_count T c) else map_of acc c)
           \<and> (distinct (map fst acc) \<longrightarrow> distinct (map fst d))"
  using assms
proof (induction L arbitrary: acc)
  case Nil
  then show ?case by simp
next
  case (Cons col cols)
  from Cons.prems have "col \<in> set (df_columns T)" and sub: "set cols \<subseteq> set (df_columns T)"
    by simp_all
  then obtain vs where g: "getitem T col = Inr vs" and n: "null_count T col = count_list vs Null"
    using getitem_present by blast
  let ?acc = "AList.update col (null_count T col) acc"
  from Cons.IH [OF sub, of ?acc] obtain d where
    d: "null_counts_from T cols ?acc = Inr d"
      "map_of d = (\<lambda>c. if c \<in> set cols then Some (null_count T c) else map_of ?acc c)"
      "distinct (map fst ?acc) \<longrightarrow> distinct (map fst d)"
    by blast
  have 1: "null_counts_from T (col # cols) acc = Inr d"
    by (simp add: g sum_bool_isnull n [symmetric] d(1))
  have 2: "map_of d = (\<lambda>c. if c \<in> set (col # cols) then Some (null_count T c) else map_of acc c)"
    by (rule ext) (simp add: d(2) update_conv')
  have 3: "distinct (map fst acc) \<longrightarrow> distinct (map fst d)"
    using d(3) by (simp add: distinct_update)
  from 1 2 3 show ?case by blast
qed

lemma non_null_dispatch:
  "metrics lib ''non_null'' [VTable T, VStrs L] [] = sbind (metrics_non_null T L) (\<lambda>r. Inr (MDict r))"
  "rules lib fmt ''non_null'' [VTable T, VStrs L] [] = rules_non_null fmt T L"
  by (simp_all add: dispatch_defs call_metrics_non_null_def call_rules_non_null_def
      bind_args_def sbind_def arg_table_def arg_strs_def)

lemma no_invalid_cols:
  assumes "distinct (map fst d)"
    and "map_of d = (\<lambda>c. if c \<in> S then Some (f c) else None)"
  shows "(length (filter (\<lambda>kv. 0 < snd kv) d) = 0) = (\<forall>c \<in> S. f c = (0::nat))"
proof -
  have mem: "(kv \<in> set d) = (fst kv \<in> S \<and> snd kv = f (fst kv))" for kv
  proof -
    have "(kv \<in> set d) = (map_of d (fst kv) = Some (snd kv))"
      using assms(1) by (cases kv) simp
    also have "\<dots> = (fst kv \<in> S \<and> snd kv = f (fst kv))"
      by (auto simp: assms(2))
    finally show ?thesis .
  qed
  have "(length (filter (\<lambda>kv. 0 < snd kv) d) = 0) = (\<forall>kv \<in> set d. snd kv = 0)"
    by (auto simp: filter_empty_conv)
  also have "\<dots> = (\<forall>c \<in> S. f c = 0)"
  proof
    assume a: "\<forall>kv \<in> set d. snd kv = 0"
    show "\<forall>c \<in> S. f c = 0"
    proof
      fix c assume "c \<in> S"
      then have "(c, f c) \<in> set d" by (simp add: mem)
      with a show "f c = 0" by fastforce
    qed
  next
    assume "\<forall>c \<in> S. f c = 0"
    then show "\<forall>kv \<in> set d. snd kv = 0"
      by (simp add: mem)
  qed
  finally show ?thesis .
qed

text \<open>
  Claim C7. For a table \<open>T\<close> and a list \<open>L\<close> of columns that all exist in \<open>T\<close>, the
  metric is a dict \<open>d\<close> that maps exactly the columns of \<open>L\<close>, each to the number of
  its missing values; the rule passes iff every column of \<open>L\<close> has no missing value,
  and its message reports the entries of \<open>d\<close> with a nonzero count only.
\<close>

theorem non_null_counts:
  assumes "set L \<subseteq> set (df_columns T)"
  shows "\<exists>d. metrics lib ''non_null'' [VTable T, VStrs L] [] = Inr (MDict d)
           \<and> distinct (map fst d)
           \<and> map_of d = (\<lambda>c. if c \<in> set L then Some (null_count T c) else None)
           \<and> rules lib fmt ''non_null'' [VTable T, VStrs L] [] =
               Inr (\<forall>c \<in> set L. null_count T c = 0,
                    ''Null values found in columns: ''
                      @ str_dict fmt (filter (\<lambda>kv. 0 < snd kv) d))"
proof -
  have "\<exists>d. null_counts_from T L [] = Inr d
           \<and> map_of d = (\<lambda>c. if c \<in> set L then Some (null_count T c) else None)
           \<and> distinct (map fst d)"
    using null_counts_from_present [OF assms, of "[]"] by (simp cong: if_cong)
  then obtain d where
    d: "null_counts_from T L [] = Inr d"
      "map_of d = (\<lambda>c. if c \<in> set L then Some (null_count T c) else None)"
      "distinct (map fst d)"
    by blast
  have m: "metrics_non_null T L = Inr d"
    by (simp add: metrics_non_null_def d(1))
  have p: "(length (filter (\<lambda>kv. 0 < snd kv) d) = 0) = (\<forall>c \<in> set L. null_count T c = 0)"
    by (rule no_invalid_cols [OF d(3) d(2)])
  have r: "rules_non_null fmt T L =
      Inr (\<forall>c \<in> set L. null_count T c = 0,
           ''Null values found in columns: '' @ str_dict fmt (filter (\<lambda>kv. 0 < snd kv) d))"
    by (simp only: rules_non_null_def m sum.case Let_def p)
  have "metrics lib ''non_null'' [VTable T, VStrs L] [] = Inr (MDict d)"
    by (simp add: non_null_dispatch m sbind_def)
  with d(2,3) r show ?thesis
    by (simp only: non_null_dispatch) blast
qed

theorem non_null_counts_witness:
  "set [''name'', ''id'', ''name''] \<subseteq> set (df_columns sample_data)
   \<and> metrics seq_lib ''non_null'' [VTable sample_data, VStrs [''name'', ''id'', ''name'']] [] =
       Inr (MDict [(''name'', 1), (''id'', 0)])
   \<and> rules seq_lib blank_fmt ''non_null'' [VTable sample_data, VStrs [''name'', ''id'', ''name'']] [] =
       Inr (False, ''Null values found in columns: <name=1>'')
   \<and> rules seq_lib blank_fmt ''non_null'' [VTable sample_data, VStrs [''id'']] [] =
       Inr (True, ''Null values found in columns: '')"
proof -
  have a: "set [''name'', ''id'', ''name''] \<subseteq> set (df_columns sample_data)"
    by (simp add: df_columns_def sample_data_def)
  have b: "set [''id''] \<subseteq> set (df_columns sample_data)"
    by (simp add: df_columns_def sample_data_def)
  have nn: "null_count sample_data ''name'' = 1" and ni: "null_count sample_data ''id'' = 0"
    by (simp_all add: null_count_def sample_data_def)
  have m1: "metrics seq_lib ''non_null'' [VTable sample_data, VStrs [''name'', ''id'', ''name'']] [] =
       Inr (MDict [(''name'', 1), (''id'', 0)])"
    by (simp add: non_null_dispatch metrics_non_null_def sbind_def getitem_def sample_data_def
        sum_bool_def isnull_def)
  have m2: "metrics seq_lib ''non_null'' [VTable sample_data, VStrs [''id'']] [] = Inr (MDict [(''id'', 0)])"
    by (simp add: non_null_dispatch metrics_non_null_def sbind_def getitem_def sample_data_def
        sum_bool_def isnull_def)
  from non_null_counts [OF a, of seq_lib blank_fmt] m1
  have r1: "rules seq_lib blank_fmt ''non_null'' [VTable sample_data, VStrs [''name'', ''id'', ''name'']] [] =
       Inr (False, ''Null values found in columns: <name=1>'')"
    by (auto simp: nn ni blank_fmt_def digit_char_def)
  from non_null_counts [OF b, of seq_lib blank_fmt] m2
  have r2: "rules seq_lib blank_fmt ''non_null'' [VTable sample_data, VStrs [''id'']] [] =
       Inr (True, ''Null values found in columns: '')"
    by (auto simp: ni blank_fmt_def)
  from a m1 r1 r2 show ?thesis by blast
qed

section \<open>What the messages of the rules carry\<close>

lemma digit_char_inj:
  assumes "a < 10" and "b < 10" and "digit_char a = digit_char b"
  shows "a = b"
proof -
  have d: "distinct ''0123456789''"
    by simp
  have "a < length ''0123456789''" and "b < length ''0123456789''"
    using assms(1,2) by simp_all
  with d assms(3) show ?thesis
    unfolding digit_char_def by (simp only: nth_eq_iff_index_eq)
qed

lemma str_nat_small: "n < 10 \<Longrightarrow> str_nat n = [digit_char n]"
  by simp

lemma str_nat_large: "\<not> n < 10 \<Longrightarrow> str_nat n = str_nat (n div 10) @ [digit_char (n mod 10)]"
  by (subst str_nat.simps) simp

lemma str_nat_nonempty: "str_nat n \<noteq> []"
proof (cases "n < 10")
  case True
  then show ?thesis by (simp add: str_nat_small del: str_nat.simps)
next
  case False
  then show ?thesis by (simp add: str_nat_large del: str_nat.simps)
qed

lemma str_nat_inj: "str_nat a = str_nat b \<Longrightarrow> a = b"
proof (induction a arbitrary: b rule: str_nat.induct)
  case (1 n)
  show ?case
  proof (cases "n < 10")
    case True
    note n = this
    have sn: "str_nat n = [digit_char n]"
      by (rule str_nat_small [OF n])
    show ?thesis
    proof (cases "b < 10")
      case True
      have "str_nat b = [digit_char b]"
        by (rule str_nat_small [OF True])
      with sn "1.prems" have "digit_char n = digit_char b"
        by (simp del: str_nat.simps)
      with n True show ?thesis
        by (rule digit_char_inj)
    next
      case False
      have "str_nat b = str_nat (b div 10) @ [digit_char (b mod 10)]"
        by (rule str_nat_large [OF False])
      with sn "1.prems" have "[digit_char n] = str_nat (b div 10) @ [digit_char (b mod 10)]"
        by (simp del: str_nat.simps)
      then have "str_nat (b div 10) = []"
        by (simp del: str_nat.simps)
      then show ?thesis
        using str_nat_nonempty by blast
    qed
  next
    case False
    note n = this
    have sn: "str_nat n = str_nat (n div 10) @ [digit_char (n mod 10)]"
      by (rule str_nat_large [OF n])
    show ?thesis
    proof (cases "b < 10")
      case True
      have "str_nat b = [digit_char b]"
        by (rule str_nat_small [OF True])
      with sn "1.prems" have "str_nat (n div 10) @ [digit_char (n mod 10)] = [digit_char b]"
        by (simp del: str_nat.simps)
      then have "str_nat (n div 10) = []"
        by (simp del: str_nat.simps)
      then show ?thesis
        using str_nat_nonempty by blast
    next
      case False
      have "str_nat b = str_nat (b div 10) @ [digit_char (b mod 10)]"
        by (rule str_nat_large [OF False])
      with sn "1.prems" have
        "str_nat (n div 10) @ [digit_char (n mod 10)] = str_nat (b div 10) @ [digit_char (b mod 10)]"
        by (simp del: str_nat.simps)
      then have e: "str_nat (n div 10) = str_nat (b div 10)"
        and d: "digit_char (n mod 10) = digit_char (b mod 10)"
        by (simp_all del: str_nat.simps)
      from "1.IH" [OF n e] have q: "n div 10 = b div 10" .
      have r: "n mod 10 = b mod 10"
        by (rule digit_char_inj [OF _ _ d]) simp_all
      from q r show ?thesis
        by (metis div_mult_mod_eq)
    qed
  qed
qed

lemma unique_identifiers_dispatch:
  "metrics lib ''unique_identifiers'' [VTable T, VStr C] [] =
     sbind (metrics_unique_identifiers T C) (\<lambda>r. Inr (MCount r))"
  "rules lib fmt ''unique_identifiers'' [VTable T, VStr C] [] = rules_unique_identifiers T C"
  by (simp_all add: dispatch_defs call_metrics_unique_identifiers_def
      call_rules_unique_identifiers_def bind_args_def sbind_def arg_table_def arg_str_def)

lemma non_zero_records_dispatch:
  "metrics lib ''non_zero_records'' [VTable T] [] = Inr (MCount (metrics_non_zero_records T))"
  "rules lib fmt ''non_zero_records'' [VTable T] [] = Inr (rules_non_zero_records T)"
  by (simp_all add: dispatch_defs call_metrics_non_zero_records_def
      call_rules_non_zero_records_def bind_args_def sbind_def arg_table_def)

lemma sbind_Inr_iff: "(sbind m (\<lambda>r. Inr (f r)) = Inr y) = (\<exists>x. m = Inr x \<and> y = f x)"
  by (cases m) (auto simp: sbind_def)

text \<open>
  Claim C8 says that the message of every one of the nine rules describes the observed
  metric and the threshold it was judged against, also when the check passes. The
  row-count rule does not describe the metric: its message is one fixed text, and for
  the table of five rows the check passes with the very message it gives for a table
  without rows. The dynamic threshold rule does not describe the threshold: on the
  value column 10, 20, 30, 40, 50 it gives the same message for the reference value 30
  and for the reference value 32, the tolerance being one half.
\<close>

theorem rule_message_counterexample:
  "metrics seq_lib ''non_zero_records'' [VTable sample_data] [] = Inr (MCount 5)
   \<and> rules seq_lib blank_fmt ''non_zero_records'' [VTable sample_data] [] =
       Inr (True, ''No records found in the dataset.'')
   \<and> metrics seq_lib ''non_zero_records'' [VTable no_rows] [] = Inr (MCount 0)
   \<and> rules seq_lib blank_fmt ''non_zero_records'' [VTable no_rows] [] =
       Inr (False, ''No records found in the dataset.'')
   \<and> rules seq_lib blank_fmt ''dynamic_threshold''
        [VTable sample_data, VStr ''value'', VInt 30, VFloat (Fin (1 / 2))] [] =
       Inr (False, ''2 values exceed dynamic thresholds.'')
   \<and> rules seq_lib blank_fmt ''dynamic_threshold''
        [VTable sample_data, VStr ''value'', VInt 32, VFloat (Fin (1 / 2))] [] =
       Inr (False, ''2 values exceed dynamic thresholds.'')"
proof -
  have a: "metrics seq_lib ''non_zero_records'' [VTable sample_data] [] = Inr (MCount 5)"
    and b: "rules seq_lib blank_fmt ''non_zero_records'' [VTable sample_data] [] =
       Inr (True, ''No records found in the dataset.'')"
    and c: "metrics seq_lib ''non_zero_records'' [VTable no_rows] [] = Inr (MCount 0)"
    and d: "rules seq_lib blank_fmt ''non_zero_records'' [VTable no_rows] [] =
       Inr (False, ''No records found in the dataset.'')"
    by (simp_all add: non_zero_records_dispatch metrics_non_zero_records_def
        rules_non_zero_records_def len_df_def sample_data_def no_rows_def)
  have "(1 + 1 / 2 :: real) = 3 / 2"
    by simp
  then have m: "metrics_dynamic_threshold sample_data ''value'' (PInt 30) (PFloat (Fin (1 / 2))) = Inr 2"
    "metrics_dynamic_threshold sample_data ''value'' (PInt 32) (PFloat (Fin (1 / 2))) = Inr 2"
    by (simp_all add: metrics_dynamic_threshold_def series_defs sample_data_def sbind_def
        py_sub_def py_add_def py_mul_def py_arith_def to_float_def fsub_def r64_half
        r64_three_halves)
  have e: "rules seq_lib blank_fmt ''dynamic_threshold''
        [VTable sample_data, VStr ''value'', VInt 30, VFloat (Fin (1 / 2))] [] =
       Inr (False, ''2 values exceed dynamic thresholds.'')"
    using threshold_dispatch(4) [of seq_lib blank_fmt sample_data "''value''" "PInt 30"
        "PFloat (Fin (1 / 2))"]
    by (simp add: num_arg_def rules_dynamic_threshold_def m digit_char_def)
  have f: "rules seq_lib blank_fmt ''dynamic_threshold''
        [VTable sample_data, VStr ''value'', VInt 32, VFloat (Fin (1 / 2))] [] =
       Inr (False, ''2 values exceed dynamic thresholds.'')"
    using threshold_dispatch(4) [of seq_lib blank_fmt sample_data "''value''" "PInt 32"
        "PFloat (Fin (1 / 2))"]
    by (simp add: num_arg_def rules_dynamic_threshold_def m digit_char_def)
  from a b c d e f show ?thesis
    by (intro conjI)
qed

text \<open>
  Claim C8, amended. Each of the nine rules returns, whenever its metric has a value, a
  pair of the verdict and a message that is built in the same way whether the check
  passes or fails. The message of the row-count rule is the fixed text
  \<^verbatim>\<open>No records found in the dataset.\<close> for every table, and the rule passes iff the row
  count is positive. The messages of the other eight rules embed what was observed: the
  count of duplicates or of outliers in decimal, the set of absent names, the entries of
  the null-count dict with a nonzero count, the variance, or the two limits of the
  anomaly check with the current count. The threshold message also carries \<open>min_val\<close> and
  \<open>max_val\<close>, the variance message \<open>max_variance\<close>, each as Python writes the argument: an
  int in decimal, a float as a float. The dynamic threshold message carries neither the
  reference value nor the tolerance. The decimal text of a count determines the count.
\<close>

theorem rule_messages_embed_metric:
  "(metrics lib ''unique_identifiers'' [VTable Tu, VStr Cu] [] = Inr (MCount nu) \<longrightarrow>
      rules lib fmt ''unique_identifiers'' [VTable Tu, VStr Cu] [] =
        Inr (nu = 0, str_nat nu @ '' duplicate identifiers found.''))
   \<and> (metrics lib ''schema_consistency'' [VTable Tm, VStrs Lm] [] = Inr (MSet Sm) \<longrightarrow>
      rules lib fmt ''schema_consistency'' [VTable Tm, VStrs Lm] [] =
        Inr (Sm = {}, ''Missing columns: '' @ str_set fmt Sm))
   \<and> (metrics lib ''non_null'' [VTable Tn, VStrs Ln] [] = Inr (MDict dn) \<longrightarrow>
      rules lib fmt ''non_null'' [VTable Tn, VStrs Ln] [] =
        Inr (filter (\<lambda>kv. 0 < snd kv) dn = [],
             ''Null values found in columns: '' @ str_dict fmt (filter (\<lambda>kv. 0 < snd kv) dn)))
   \<and> (metrics lib ''threshold'' [VTable Tt, VStr Ct, num_arg lo, num_arg hi] [] = Inr (MCount nt) \<longrightarrow>
      rules lib fmt ''threshold'' [VTable Tt, VStr Ct, num_arg lo, num_arg hi] [] =
        Inr (nt = 0,
             str_nat nt @ '' values are outside the range ['' @ str_pynum fmt lo @ '', ''
               @ str_pynum fmt hi @ ''].''))
   \<and> (metrics lib ''dynamic_threshold'' [VTable Td, VStr Cd, num_arg ref, num_arg tol] [] =
        Inr (MCount nd) \<longrightarrow>
      rules lib fmt ''dynamic_threshold'' [VTable Td, VStr Cd, num_arg ref, num_arg tol] [] =
        Inr (nd = 0, str_nat nd @ '' values exceed dynamic thresholds.''))
   \<and> (metrics lib ''variance'' [VTable Tv, VStr Cv] [] = Inr (MFloat v)
        \<and> to_float mv = Inr mf \<longrightarrow>
      rules lib fmt ''variance'' [VTable Tv, VStr Cv, num_arg mv] [] =
        Inr (fle v mf,
             ''Variance ('' @ str_float64 fmt v @ '') exceeds the maximum allowed (''
               @ str_pynum fmt mv @ '').''))
   \<and> (metrics lib ''record_anomalies'' [VNums H, VInt p] [] = Inr (MPair mu sd)
        \<and> to_float c = Inr cf \<longrightarrow>
      rules lib fmt ''record_anomalies'' [VNums H, num_arg c, VInt p] [] =
        Inr (fle (fsub mu (fmul (Fin 3) sd)) cf \<and> fle cf (fadd mu (fmul (Fin 3) sd)),
             ''Record count '' @ str_pynum fmt c @ '' is outside 3 standard deviations [''
               @ str_float64 fmt (fsub mu (fmul (Fin 3) sd)) @ '', ''
               @ str_float64 fmt (fadd mu (fmul (Fin 3) sd)) @ ''] of the mean.''))
   \<and> (metrics lib ''non_zero_records'' [VTable Tz] [] = Inr (MCount nz) \<longrightarrow>
      rules lib fmt ''non_zero_records'' [VTable Tz] [] =
        Inr (0 < nz, ''No records found in the dataset.''))
   \<and> (metrics lib ''column_name_consistency'' [VTable Tc, VStrs Lc] [] = Inr (MSet Sc) \<longrightarrow>
      rules lib fmt ''column_name_consistency'' [VTable Tc, VStrs Lc] [] =
        Inr (Sc = {}, ''Inconsistent column names: '' @ str_set fmt Sc))
   \<and> str_pynum fmt (PInt i) = str_int i
   \<and> str_pynum fmt (PFloat f) = str_float fmt f
   \<and> (str_nat a = str_nat b \<longrightarrow> a = b)"
proof -
  have c1: "metrics lib ''unique_identifiers'' [VTable Tu, VStr Cu] [] = Inr (MCount nu) \<longrightarrow>
      rules lib fmt ''unique_identifiers'' [VTable Tu, VStr Cu] [] =
        Inr (nu = 0, str_nat nu @ '' duplicate identifiers found.'')"
    by (auto simp add: unique_identifiers_dispatch sbind_Inr_iff rules_unique_identifiers_def
        simp del: str_nat.simps)
  have fin: "finite (set L' - set (df_columns T'))" for L' T'
    by simp
  have c2: "metrics lib ''schema_consistency'' [VTable Tm, VStrs Lm] [] = Inr (MSet Sm) \<longrightarrow>
      rules lib fmt ''schema_consistency'' [VTable Tm, VStrs Lm] [] =
        Inr (Sm = {}, ''Missing columns: '' @ str_set fmt Sm)"
    using fin by (auto simp add: set_difference_dispatch rules_schema_consistency_def
        metrics_schema_consistency_def)
  have c3: "metrics lib ''non_null'' [VTable Tn, VStrs Ln] [] = Inr (MDict dn) \<longrightarrow>
      rules lib fmt ''non_null'' [VTable Tn, VStrs Ln] [] =
        Inr (filter (\<lambda>kv. 0 < snd kv) dn = [],
             ''Null values found in columns: '' @ str_dict fmt (filter (\<lambda>kv. 0 < snd kv) dn))"
    by (auto simp add: non_null_dispatch sbind_Inr_iff rules_non_null_def Let_def)
  have c4: "metrics lib ''threshold'' [VTable Tt, VStr Ct, num_arg lo, num_arg hi] [] = Inr (MCount nt) \<longrightarrow>
      rules lib fmt ''threshold'' [VTable Tt, VStr Ct, num_arg lo, num_arg hi] [] =
        Inr (nt = 0,
             str_nat nt @ '' values are outside the range ['' @ str_pynum fmt lo @ '', ''
               @ str_pynum fmt hi @ ''].'')"
    by (auto simp add: threshold_dispatch sbind_Inr_iff rules_threshold_def
        simp del: str_nat.simps)
  have c5: "metrics lib ''dynamic_threshold'' [VTable Td, VStr Cd, num_arg ref, num_arg tol] [] =
        Inr (MCount nd) \<longrightarrow>
      rules lib fmt ''dynamic_threshold'' [VTable Td, VStr Cd, num_arg ref, num_arg tol] [] =
        Inr (nd = 0, str_nat nd @ '' values exceed dynamic thresholds.'')"
    by (auto simp add: threshold_dispatch sbind_Inr_iff rules_dynamic_threshold_def
        simp del: str_nat.simps)
  have c6: "metrics lib ''variance'' [VTable Tv, VStr Cv] [] = Inr (MFloat v)
        \<and> to_float mv = Inr mf \<longrightarrow>
      rules lib fmt ''variance'' [VTable Tv, VStr Cv, num_arg mv] [] =
        Inr (fle v mf,
             ''Variance ('' @ str_float64 fmt v @ '') exceeds the maximum allowed (''
               @ str_pynum fmt mv @ '').'')"
    by (auto simp add: variance_dispatch rules_variance_def sbind_def split: sum.splits)
  have c7: "metrics lib ''record_anomalies'' [VNums H, VInt p] [] = Inr (MPair mu sd)
        \<and> to_float c = Inr cf \<longrightarrow>
      rules lib fmt ''record_anomalies'' [VNums H, num_arg c, VInt p] [] =
        Inr (fle (fsub mu (fmul (Fin 3) sd)) cf \<and> fle cf (fadd mu (fmul (Fin 3) sd)),
             ''Record count '' @ str_pynum fmt c @ '' is outside 3 standard deviations [''
               @ str_float64 fmt (fsub mu (fmul (Fin 3) sd)) @ '', ''
               @ str_float64 fmt (fadd mu (fmul (Fin 3) sd)) @ ''] of the mean.'')"
    by (auto simp add: record_anomalies_dispatch rules_record_anomalies_def Let_def
        sbind_def split: sum.splits prod.splits)
  have c8: "metrics lib ''non_zero_records'' [VTable Tz] [] = Inr (MCount nz) \<longrightarrow>
      rules lib fmt ''non_zero_records'' [VTable Tz] [] =
        Inr (0 < nz, ''No records found in the dataset.'')"
    by (auto simp add: non_zero_records_dispatch rules_non_zero_records_def Let_def)
  have c9: "metrics lib ''column_name_consistency'' [VTable Tc, VStrs Lc] [] = Inr (MSet Sc) \<longrightarrow>
      rules lib fmt ''column_name_consistency'' [VTable Tc, VStrs Lc] [] =
        Inr (Sc = {}, ''Inconsistent column names: '' @ str_set fmt Sc)"
    using fin by (auto simp add: set_difference_dispatch rules_column_name_consistency_def
        metrics_column_name_consistency_def)
  have c10: "str_pynum fmt (PInt i) = str_int i" "str_pynum fmt (PFloat f) = str_float fmt f"
    by (simp_all add: str_pynum_def)
  have c11: "str_nat a = str_nat b \<longrightarrow> a = b"
    using str_nat_inj by blast
  from c1 c2 c3 c4 c5 c6 c7 c8 c9 c10 c11 show ?thesis
    by (intro conjI)
qed

theorem rule_messages_embed_metric_witness:
  "metrics seq_lib ''unique_identifiers'' [VTable sample_data, VStr ''id''] [] = Inr (MCount 1)
   \<and> rules seq_lib blank_fmt ''unique_identifiers'' [VTable sample_data, VStr ''id''] [] =
       Inr (False, ''1 duplicate identifiers found.'')
   \<and> metrics seq_lib ''schema_consistency'' [VTable sample_data, VStrs [''id'', ''zip'']] [] =
       Inr (MSet {''zip''})
   \<and> rules seq_lib blank_fmt ''schema_consistency'' [VTable sample_data, VStrs [''id'', ''zip'']] [] =
       Inr (False, ''Missing columns: ?'')
   \<and> metrics seq_lib ''non_null'' [VTable sample_data, VStrs [''name'', ''id'']] [] =
       Inr (MDict [(''name'', 1), (''id'', 0)])
   \<and> rules seq_lib blank_fmt ''non_null'' [VTable sample_data, VStrs [''name'', ''id'']] [] =
       Inr (False, ''Null values found in columns: <name=1>'')
   \<and> metrics seq_lib ''threshold'' [VTable sample_data, VStr ''value'', VInt 10, VInt 50] [] =
       Inr (MCount 0)
   \<and> rules seq_lib blank_fmt ''threshold'' [VTable sample_data, VStr ''value'', VInt 10, VInt 50] [] =
       Inr (True, ''0 values are outside the range [10, 50].'')
   \<and> metrics seq_lib ''threshold''
        [VTable sample_data, VStr ''value'', VFloat (Fin 10), VFloat (Fin 50)] [] = Inr (MCount 0)
   \<and> rules seq_lib blank_fmt ''threshold''
        [VTable sample_data, VStr ''value'', VFloat (Fin 10), VFloat (Fin 50)] [] =
       Inr (True, ''0 values are outside the range [10.0, 50.0].'')
   \<and> metrics seq_lib ''dynamic_threshold''
        [VTable sample_data, VStr ''value'', VInt 30, VFloat (Fin (1 / 2))] [] = Inr (MCount 2)
   \<and> rules seq_lib blank_fmt ''dynamic_threshold''
        [VTable sample_data, VStr ''value'', VInt 30, VFloat (Fin (1 / 2))] [] =
       Inr (False, ''2 values exceed dynamic thresholds.'')
   \<and> metrics seq_lib ''variance'' [VTable readings, VStr ''reading''] [] = Inr (MFloat (Fin 4))
   \<and> to_float (PInt 4) = Inr (Fin 4)
   \<and> rules seq_lib blank_fmt ''variance'' [VTable readings, VStr ''reading'', VInt 4] [] =
       Inr (True, ''Variance (4.0) exceeds the maximum allowed (4).'')
   \<and> metrics seq_lib ''record_anomalies'' [VNums [PInt 2, PInt 2, PInt 6, PInt 6], VInt 30] [] =
       Inr (MPair (Fin 4) (Fin 2))
   \<and> to_float (PInt 10) = Inr (Fin 10)
   \<and> rules seq_lib blank_fmt ''record_anomalies''
        [VNums [PInt 2, PInt 2, PInt 6, PInt 6], VInt 10, VInt 30] [] =
       Inr (True, ''Record count 10 is outside 3 standard deviations [-2.0, 10.0] of the mean.'')
   \<and> metrics seq_lib ''non_zero_records'' [VTable sample_data] [] = Inr (MCount 5)
   \<and> rules seq_lib blank_fmt ''non_zero_records'' [VTable sample_data] [] =
       Inr (True, ''No records found in the dataset.'')
   \<and> metrics seq_lib ''column_name_consistency'' [VTable sample_data, VStrs [''id'']] [] =
       Inr (MSet {})
   \<and> rules seq_lib blank_fmt ''column_name_consistency'' [VTable sample_data, VStrs [''id'']] [] =
       Inr (True, ''Inconsistent column names: ?'')
   \<and> str_pynum blank_fmt (PInt 10) = ''10''
   \<and> str_pynum blank_fmt (PFloat (Fin 10)) = ''10.0''
   \<and> str_nat 12 = str_nat 12"
proof -
  have h1: "metrics seq_lib ''unique_identifiers'' [VTable sample_data, VStr ''id''] [] =
      Inr (MCount 1)"
    by (simp add: unique_identifiers_dispatch sbind_def metrics_unique_identifiers_def
        getitem_def duplicated_def sum_bool_def sample_data_def)
  have h2: "metrics seq_lib ''schema_consistency'' [VTable sample_data, VStrs [''id'', ''zip'']] [] =
       Inr (MSet {''zip''})"
    by (auto simp: set_difference_dispatch metrics_schema_consistency_def df_columns_def
        sample_data_def)
  have h3: "metrics seq_lib ''non_null'' [VTable sample_data, VStrs [''name'', ''id'']] [] =
       Inr (MDict [(''name'', 1), (''id'', 0)])"
    by (simp add: non_null_dispatch metrics_non_null_def sbind_def getitem_def sample_data_def
        sum_bool_def isnull_def)
  have h4: "metrics seq_lib ''threshold'' [VTable sample_data, VStr ''value'', VInt 10, VInt 50] [] =
       Inr (MCount 0)"
    using threshold_dispatch(1) [of seq_lib sample_data "''value''" "PInt 10" "PInt 50"]
    by (simp add: num_arg_def sbind_def metrics_threshold_def series_defs sample_data_def)
  have h4f: "metrics seq_lib ''threshold''
        [VTable sample_data, VStr ''value'', VFloat (Fin 10), VFloat (Fin 50)] [] = Inr (MCount 0)"
    using threshold_dispatch(1) [of seq_lib sample_data "''value''" "PFloat (Fin 10)"
        "PFloat (Fin 50)"]
    by (simp add: num_arg_def sbind_def metrics_threshold_def series_defs sample_data_def)
  have "(1 + 1 / 2 :: real) = 3 / 2"
    by simp
  then have h5: "metrics seq_lib ''dynamic_threshold''
        [VTable sample_data, VStr ''value'', VInt 30, VFloat (Fin (1 / 2))] [] = Inr (MCount 2)"
    using threshold_dispatch(3) [of seq_lib sample_data "''value''" "PInt 30"
        "PFloat (Fin (1 / 2))"]
    by (simp add: num_arg_def metrics_dynamic_threshold_def series_defs sample_data_def sbind_def
        py_sub_def py_add_def py_mul_def py_arith_def to_float_def fsub_def r64_half
        r64_three_halves)
  have h6: "metrics seq_lib ''variance'' [VTable readings, VStr ''reading''] [] =
      Inr (MFloat (Fin 4))"
    by (simp add: variance_dispatch sbind_def metrics_variance_def getitem_def readings_def
        readings_var)
  have t4: "to_float (PInt 4) = Inr (Fin 4)" and t10: "to_float (PInt 10) = Inr (Fin 10)"
    by (simp_all add: to_float_def)
  have "slice_from (- 30) [PInt 2, PInt 2, PInt 6, PInt 6] = [PInt 2, PInt 2, PInt 6, PInt 6]"
    by (simp add: slice_from_def)
  then have h7: "metrics seq_lib ''record_anomalies''
        [VNums [PInt 2, PInt 2, PInt 6, PInt 6], VInt 30] [] = Inr (MPair (Fin 4) (Fin 2))"
    by (simp add: record_anomalies_dispatch metrics_record_anomalies_def small_window_stats
        sbind_def)
  have h8: "metrics seq_lib ''non_zero_records'' [VTable sample_data] [] = Inr (MCount 5)"
    by (simp add: non_zero_records_dispatch metrics_non_zero_records_def len_df_def
        sample_data_def)
  have h9: "metrics seq_lib ''column_name_consistency'' [VTable sample_data, VStrs [''id'']] [] =
      Inr (MSet {})"
    by (auto simp: set_difference_dispatch metrics_column_name_consistency_def df_columns_def
        sample_data_def)
  note t = rule_messages_embed_metric [where lib = seq_lib and fmt = blank_fmt
      and Tu = sample_data and Cu = "''id''" and nu = 1
      and Tm = sample_data and Lm = "[''id'', ''zip'']" and Sm = "{''zip''}"
      and Tn = sample_data and Ln = "[''name'', ''id'']" and dn = "[(''name'', 1), (''id'', 0)]"
      and Tt = sample_data and Ct = "''value''" and lo = "PInt 10" and hi = "PInt 50" and nt = 0
      and Td = sample_data and Cd = "''value''" and ref = "PInt 30"
      and tol = "PFloat (Fin (1 / 2))" and nd = 2
      and Tv = readings and Cv = "''reading''" and v = "Fin 4" and mv = "PInt 4" and mf = "Fin 4"
      and H = "[PInt 2, PInt 2, PInt 6, PInt 6]" and p = 30 and mu = "Fin 4" and sd = "Fin 2"
      and c = "PInt 10" and cf = "Fin 10"
      and Tz = sample_data and nz = 5
      and Tc = sample_data and Lc = "[''id'']" and Sc = "{}"
      and i = 10 and f = "Fin 10" and a = 12 and b = 12]
  note u = rule_messages_embed_metric [where lib = seq_lib and fmt = blank_fmt
      and Tt = sample_data and Ct = "''value''" and lo = "PFloat (Fin 10)"
      and hi = "PFloat (Fin 50)" and nt = 0]
  from t u h1 h2 h3 h4 h4f h5 h6 h7 h8 h9 t4 t10 show ?thesis
    by (simp add: num_arg_def str_pynum_def str_int_def blank_fmt_def whole_float_text_def
        digit_char_def fsub_def)
qed

end
